theory Spec2Isabelle
  imports Complex_Main
begin

section \<open>The dependency graph held by the graph data store\<close>

text \<open>
  The tools under \<^verbatim>\<open>tools/\<close> read a Neo4j graph. Every node has an identity and a
  display name, and only the identity is unique. A unit carries the label
  BusinessFunction. A field carries the label ElementalField (a leaf) or GroupField (a
  container). The two relationship types the tools follow, HAS_INPUT_FIELD and
  HAS_OUTPUT_FIELD, lead from a BusinessFunction to a Field, which the schema allows to be
  of either kind. The relationships that end in an ElementalField and those that end in a
  GroupField are kept in two lists: a statement that labels its field nodes
  \<open>:ElementalField\<close> sees the first list only. The position of a relationship in its list
  is its identity, so parallel relationships between the same two nodes are distinct.
\<close>

record BusinessFunction =
  bf_id :: nat
  bf_name :: string
  outputName :: string

record ElementalField =
  ef_id :: nat
  ef_name :: string

datatype rel_type = HAS_INPUT_FIELD | HAS_OUTPUT_FIELD

record relationship =
  rtype :: rel_type
  rel_bf :: BusinessFunction
  rel_field :: ElementalField

record GroupField =
  gf_id :: nat
  gf_name :: string

record group_relationship =
  grtype :: rel_type
  grel_bf :: BusinessFunction
  grel_field :: GroupField

record graph =
  bf_nodes :: "BusinessFunction list"
  ef_nodes :: "ElementalField list"
  rels :: "relationship list"
  group_rels :: "group_relationship list"

section \<open>tools/lib/neo4j-connection.ts\<close>

text \<open>
  A query either returns rows or throws. The state of the data store seen by one run of
  a tool is the graph, a failure schedule (\<open>outage db k = Some cause\<close> when the query
  number \<open>k\<close> of the run cannot be executed: no connection, or the statement fails) and
  the number of queries issued so far. An asynchronous function is a function of that
  state which returns a result or an error, and the new state.
\<close>

datatype error = Neo4jError string | TypeError | Error string

record neo4j =
  graph :: graph
  outage :: "nat \<Rightarrow> string option"
  issued :: nat

type_synonym 'a promise = "neo4j \<Rightarrow> (error + 'a) \<times> neo4j"

definition resolve :: "'a \<Rightarrow> 'a promise" where
  "resolve x db = (Inr x, db)"

definition reject :: "error \<Rightarrow> 'a promise" where
  "reject e db = (Inl e, db)"

text \<open>\<open>await m k\<close>: wait for \<open>m\<close>, then go on with \<open>k\<close>; an error of \<open>m\<close> propagates.\<close>

definition await :: "'a promise \<Rightarrow> ('a \<Rightarrow> 'b promise) \<Rightarrow> 'b promise" where
  "await m k db = (case m db of (Inl e, db') \<Rightarrow> (Inl e, db') | (Inr x, db') \<Rightarrow> k x db')"

text \<open>\<open>try_catch m h\<close>: the block \<open>try { m } catch (error) { h error }\<close>.\<close>

definition try_catch :: "'a promise \<Rightarrow> (error \<Rightarrow> 'a promise) \<Rightarrow> 'a promise" where
  "try_catch m h db = (case m db of (Inl e, db') \<Rightarrow> h e db' | (Inr x, db') \<Rightarrow> (Inr x, db'))"

text \<open>
  \<open>queryNeo4j cypher\<close>: the statement is given by its meaning on the graph, which is a
  list of rows or the message of a run-time failure of the statement itself.
\<close>

definition queryNeo4j :: "(graph \<Rightarrow> string + 'row list) \<Rightarrow> 'row list promise" where
  "queryNeo4j cypher db =
     (let db' = db\<lparr>issued := Suc (issued db)\<rparr> in
      case outage db (issued db) of
        Some cause \<Rightarrow> (Inl (Neo4jError cause), db')
      | None \<Rightarrow>
          (case cypher (graph db) of
             Inl msg \<Rightarrow> (Inl (Neo4jError msg), db')
           | Inr rows \<Rightarrow> (Inr rows, db')))"

text \<open>The array destructuring \<open>const [x] = rows\<close>: \<open>None\<close> is \<open>undefined\<close>.\<close>

fun first :: "'a list \<Rightarrow> 'a option" where
  "first [] = None"
| "first (x # xs) = Some x"

section \<open>JavaScript numbers that may leave the finite range\<close>

datatype number = Finite real | NaN | PosInfinity | NegInfinity

text \<open>Division of two finite numbers: a zero divisor gives \<open>NaN\<close> or an infinity.\<close>

definition js_div :: "real \<Rightarrow> real \<Rightarrow> number" where
  "js_div a b =
     (if b = 0 then (if a = 0 then NaN else if 0 < a then PosInfinity else NegInfinity)
      else Finite (a / b))"

text \<open>Multiplication by a finite positive constant.\<close>

fun js_times :: "number \<Rightarrow> real \<Rightarrow> number" where
  "js_times (Finite a) c = Finite (a * c)"
| "js_times NaN c = NaN"
| "js_times PosInfinity c = (if 0 < c then PosInfinity else if c < 0 then NegInfinity else NaN)"
| "js_times NegInfinity c = (if 0 < c then NegInfinity else if c < 0 then PosInfinity else NaN)"

text \<open>\<open>Math.max(...xs)\<close> of integers: the maximum of no argument is \<open>-Infinity\<close>.\<close>

fun Math_max :: "nat list \<Rightarrow> number" where
  "Math_max [] = NegInfinity"
| "Math_max (x # xs) = Finite (real (fold max xs x))"

section \<open>Cypher building blocks\<close>

text \<open>
  The pattern comprehensions \<open>[(bf)-[:HAS_OUTPUT_FIELD]->(field) | bf]\<close> and
  \<open>[(bf)-[:HAS_INPUT_FIELD]->(field) | bf]\<close>: one entry for each relationship.
\<close>

definition producers_of :: "graph \<Rightarrow> ElementalField \<Rightarrow> BusinessFunction list" where
  "producers_of g f = [rel_bf r. r \<leftarrow> rels g, rtype r = HAS_OUTPUT_FIELD, rel_field r = f]"

definition consumers_of :: "graph \<Rightarrow> ElementalField \<Rightarrow> BusinessFunction list" where
  "consumers_of g f = [rel_bf r. r \<leftarrow> rels g, rtype r = HAS_INPUT_FIELD, rel_field r = f]"

text \<open>\<open>WHERE size(producers) > 0 AND size(consumers) > 0\<close>: the eligible fields.\<close>

definition eligible :: "graph \<Rightarrow> ElementalField list" where
  "eligible g =
     [f \<leftarrow> ef_nodes g. 0 < length (producers_of g f) \<and> 0 < length (consumers_of g f)]"

text \<open>
  \<open>ORDER BY key DESC\<close>. The store does not fix the order of rows with equal keys; the
  model keeps them in the order of the match.
\<close>

definition order_by_desc :: "('a \<Rightarrow> 'k::linorder) \<Rightarrow> 'a list \<Rightarrow> 'a list" where
  "order_by_desc key rows = rev (sort_key key (rev rows))"

definition order_by_asc :: "('a \<Rightarrow> 'k::linorder) \<Rightarrow> 'a list \<Rightarrow> 'a list" where
  "order_by_asc key rows = sort_key key rows"

text \<open>The aggregates \<open>avg\<close> and \<open>max\<close>: \<open>null\<close> (here \<open>None\<close>) over no row.\<close>

definition cypher_avg :: "nat list \<Rightarrow> real option" where
  "cypher_avg xs = (if xs = [] then None else Some (real (sum_list xs) / real (length xs)))"

definition cypher_max :: "nat list \<Rightarrow> nat option" where
  "cypher_max xs = (case xs of [] \<Rightarrow> None | x # ys \<Rightarrow> Some (fold max ys x))"

section \<open>tools/impact-summary.ts\<close>

record SystemStats =
  totalBusinessFunctions :: nat
  totalFields :: nat
  totalRelationships :: nat
  avgInputFields :: "real option"
  avgOutputFields :: "real option"
  maxInputFields :: "nat option"
  maxOutputFields :: "nat option"

record HighlyConnected =
  hc_name :: string
  connections :: nat

record ConnectivityStats =
  connectedComponents :: nat
  largestComponentSize :: nat
  isolatedBusinessFunctions :: nat
  highlyConnectedBFs :: "HighlyConnected list"

record Band =
  range_label :: string
  band_count :: nat
  percentage :: number

record TopField =
  tf_field :: string
  consumers :: nat
  producers :: nat

record FieldDistribution =
  byConsumerCount :: "Band list"
  byProducerCount :: "Band list"
  topConsumerFields :: "TopField list"
  topProducerFields :: "TopField list"

record CriticalField =
  cf_field :: string
  risk :: string
  impact :: string
  recommendation :: string

record RiskAssessment =
  criticalFields :: "CriticalField list"
  systemFragility :: string
  recommendedActions :: "string list"

record ImpactSummaryReport =
  systemStats :: SystemStats
  connectivityStats :: ConnectivityStats
  fieldDistribution :: FieldDistribution
  riskAssessment :: RiskAssessment

subsection \<open>The statements of getSystemStats\<close>

definition cypher_totalBusinessFunctions :: "graph \<Rightarrow> nat list" where
  "cypher_totalBusinessFunctions g = [length (bf_nodes g)]"

definition cypher_totalFields :: "graph \<Rightarrow> nat list" where
  "cypher_totalFields g = [length (ef_nodes g)]"

definition cypher_totalRelationships :: "graph \<Rightarrow> nat list" where
  "cypher_totalRelationships g = [length (rels g) + length (group_rels g)]"

text \<open>\<open>count(DISTINCT input)\<close> and \<open>count(DISTINCT output)\<close> of one BusinessFunction.\<close>

definition inputCount :: "graph \<Rightarrow> BusinessFunction \<Rightarrow> nat" where
  "inputCount g b =
     length (remdups [rel_field r. r \<leftarrow> rels g, rtype r = HAS_INPUT_FIELD, rel_bf r = b])"

definition outputCount :: "graph \<Rightarrow> BusinessFunction \<Rightarrow> nat" where
  "outputCount g b =
     length (remdups [rel_field r. r \<leftarrow> rels g, rtype r = HAS_OUTPUT_FIELD, rel_bf r = b])"

record AvgStatsRow =
  row_avgInputFields :: "real option"
  row_avgOutputFields :: "real option"
  row_maxInputFields :: "nat option"
  row_maxOutputFields :: "nat option"

definition cypher_avgStats :: "graph \<Rightarrow> AvgStatsRow list" where
  "cypher_avgStats g =
     [\<lparr>row_avgInputFields = cypher_avg (map (inputCount g) (bf_nodes g)),
       row_avgOutputFields = cypher_avg (map (outputCount g) (bf_nodes g)),
       row_maxInputFields = cypher_max (map (inputCount g) (bf_nodes g)),
       row_maxOutputFields = cypher_max (map (outputCount g) (bf_nodes g))\<rparr>]"

definition fallbackSystemStats :: SystemStats where
  "fallbackSystemStats =
     \<lparr>totalBusinessFunctions = 0, totalFields = 0, totalRelationships = 0,
      avgInputFields = Some 0, avgOutputFields = Some 0,
      maxInputFields = Some 0, maxOutputFields = Some 0\<rparr>"

text \<open>
  The body of the \<open>try\<close> block. The four rows are read only in the returned object, after
  all four queries: a missing row is a \<open>TypeError\<close> there.
\<close>

definition getSystemStats_try :: "SystemStats promise" where
  "getSystemStats_try =
     await (queryNeo4j (\<lambda>g. Inr (cypher_totalBusinessFunctions g))) (\<lambda>rows1.
     await (queryNeo4j (\<lambda>g. Inr (cypher_totalFields g))) (\<lambda>rows2.
     await (queryNeo4j (\<lambda>g. Inr (cypher_totalRelationships g))) (\<lambda>rows3.
     await (queryNeo4j (\<lambda>g. Inr (cypher_avgStats g))) (\<lambda>rows4.
       case (first rows1, first rows2, first rows3, first rows4) of
         (Some bfCount, Some fieldCount, Some relCount, Some avgStats) \<Rightarrow>
           resolve
             \<lparr>totalBusinessFunctions = bfCount, totalFields = fieldCount,
              totalRelationships = relCount,
              avgInputFields = row_avgInputFields avgStats,
              avgOutputFields = row_avgOutputFields avgStats,
              maxInputFields = row_maxInputFields avgStats,
              maxOutputFields = row_maxOutputFields avgStats\<rparr>
       | _ \<Rightarrow> reject TypeError))))"

definition getSystemStats :: "SystemStats promise" where
  "getSystemStats = try_catch getSystemStats_try (\<lambda>error. resolve fallbackSystemStats)"

subsection \<open>The statements of getConnectivityStats\<close>

text \<open>
  \<open>OPTIONAL MATCH (bf)-[:HAS_INPUT_FIELD|HAS_OUTPUT_FIELD]-(field:ElementalField)\<close>,
  \<open>count(DISTINCT field)\<close>, \<open>WHERE connections > 0\<close>, ordered and cut at ten rows.
\<close>

definition cypher_highlyConnected :: "graph \<Rightarrow> HighlyConnected list" where
  "cypher_highlyConnected g =
     take 10 (order_by_desc connections
       [row. b \<leftarrow> bf_nodes g,
             row \<leftarrow> [\<lparr>hc_name = bf_name b,
                      connections = length (remdups [rel_field r. r \<leftarrow> rels g, rel_bf r = b])\<rparr>],
             0 < connections row])"

record ComponentStatsRow =
  totalNodes :: nat
  row_connectedComponents :: nat

text \<open>
  \<open>RETURN count(bf) as totalNodes, 1 as connectedComponents\<close>: the constant is a grouping
  key, so there is one row when a BusinessFunction exists and no row otherwise.
\<close>

definition cypher_componentStats :: "graph \<Rightarrow> ComponentStatsRow list" where
  "cypher_componentStats g =
     (if bf_nodes g = [] then []
      else [\<lparr>totalNodes = length (bf_nodes g), row_connectedComponents = 1\<rparr>])"

definition fallbackConnectivityStats :: ConnectivityStats where
  "fallbackConnectivityStats =
     \<lparr>connectedComponents = 0, largestComponentSize = 0, isolatedBusinessFunctions = 0,
      highlyConnectedBFs = []\<rparr>"

definition getConnectivityStats_try :: "ConnectivityStats promise" where
  "getConnectivityStats_try =
     await (queryNeo4j (\<lambda>g. Inr (cypher_highlyConnected g))) (\<lambda>highlyConnected.
     await (queryNeo4j (\<lambda>g. Inr (cypher_componentStats g))) (\<lambda>rows.
       case first rows of
         Some componentStats \<Rightarrow>
           resolve
             \<lparr>connectedComponents = row_connectedComponents componentStats,
              largestComponentSize = totalNodes componentStats,
              isolatedBusinessFunctions = 0,
              highlyConnectedBFs = highlyConnected\<rparr>
       | None \<Rightarrow> reject TypeError))"

definition getConnectivityStats :: "ConnectivityStats promise" where
  "getConnectivityStats =
     try_catch getConnectivityStats_try (\<lambda>error. resolve fallbackConnectivityStats)"

subsection \<open>The statements of getFieldDistribution\<close>

definition field_rows :: "graph \<Rightarrow> TopField list" where
  "field_rows g =
     [\<lparr>tf_field = ef_name f, consumers = length (consumers_of g f),
       producers = length (producers_of g f)\<rparr>. f \<leftarrow> eligible g]"

definition cypher_topConsumers :: "nat \<Rightarrow> graph \<Rightarrow> TopField list" where
  "cypher_topConsumers topCount g = take topCount (order_by_desc consumers (field_rows g))"

definition cypher_topProducers :: "nat \<Rightarrow> graph \<Rightarrow> TopField list" where
  "cypher_topProducers topCount g = take topCount (order_by_desc producers (field_rows g))"

record DistributionStatsRow =
  range1to10 :: nat
  range11to50 :: nat
  range51to100 :: nat
  range101to500 :: nat
  range501to1000 :: nat
  range1000plus :: nat
  total :: nat

text \<open>\<open>WITH size(consumers) as consumerCount\<close>: one row for each eligible field.\<close>

definition consumerCounts :: "graph \<Rightarrow> nat list" where
  "consumerCounts g = [length (consumers_of g f). f \<leftarrow> eligible g]"

text \<open>\<open>sum(CASE WHEN p THEN 1 ELSE 0 END)\<close>.\<close>

definition sum_case :: "(nat \<Rightarrow> bool) \<Rightarrow> nat list \<Rightarrow> nat" where
  "sum_case p cs = sum_list (map (\<lambda>consumerCount. if p consumerCount then 1 else 0) cs)"

definition cypher_distributionStats :: "graph \<Rightarrow> DistributionStatsRow list" where
  "cypher_distributionStats g =
     (let cs = consumerCounts g in
      [\<lparr>range1to10 = sum_case (\<lambda>c. c \<le> 10) cs,
        range11to50 = sum_case (\<lambda>c. 10 < c \<and> c \<le> 50) cs,
        range51to100 = sum_case (\<lambda>c. 50 < c \<and> c \<le> 100) cs,
        range101to500 = sum_case (\<lambda>c. 100 < c \<and> c \<le> 500) cs,
        range501to1000 = sum_case (\<lambda>c. 500 < c \<and> c \<le> 1000) cs,
        range1000plus = sum_case (\<lambda>c. 1000 < c) cs,
        total = length cs\<rparr>])"

definition fallbackFieldDistribution :: FieldDistribution where
  "fallbackFieldDistribution =
     \<lparr>byConsumerCount = [], byProducerCount = [], topConsumerFields = [],
      topProducerFields = []\<rparr>"

text \<open>\<open>{ range, count, percentage: (count / total) * 100 }\<close>.\<close>

definition band :: "string \<Rightarrow> nat \<Rightarrow> nat \<Rightarrow> Band" where
  "band label n tot =
     \<lparr>range_label = label, band_count = n,
      percentage = js_times (js_div (real n) (real tot)) 100\<rparr>"

definition getFieldDistribution_try :: "nat \<Rightarrow> FieldDistribution promise" where
  "getFieldDistribution_try topCount =
     await (queryNeo4j (\<lambda>g. Inr (cypher_topConsumers topCount g))) (\<lambda>topConsumers.
     await (queryNeo4j (\<lambda>g. Inr (cypher_topProducers topCount g))) (\<lambda>topProducers.
     await (queryNeo4j (\<lambda>g. Inr (cypher_distributionStats g))) (\<lambda>distributionStats.
       case first distributionStats of
         None \<Rightarrow> reject TypeError
       | Some stats \<Rightarrow>
           (let tot = (if total stats = 0 then 1 else total stats) in
            resolve
              \<lparr>byConsumerCount =
                 [band ''1-10'' (range1to10 stats) tot,
                  band ''11-50'' (range11to50 stats) tot,
                  band ''51-100'' (range51to100 stats) tot,
                  band ''101-500'' (range101to500 stats) tot,
                  band ''501-1000'' (range501to1000 stats) tot,
                  band ''1000+'' (range1000plus stats) tot],
               byProducerCount =
                 [\<lparr>range_label = ''1'', band_count = 0, percentage = Finite 0\<rparr>,
                  \<lparr>range_label = ''2-3'', band_count = 0, percentage = Finite 0\<rparr>,
                  \<lparr>range_label = ''4-5'', band_count = 0, percentage = Finite 0\<rparr>,
                  \<lparr>range_label = ''6+'', band_count = 0, percentage = Finite 0\<rparr>],
               topConsumerFields = topConsumers,
               topProducerFields = topProducers\<rparr>))))"

definition getFieldDistribution :: "nat \<Rightarrow> FieldDistribution promise" where
  "getFieldDistribution topCount =
     try_catch (getFieldDistribution_try topCount) (\<lambda>error. resolve fallbackFieldDistribution)"

subsection \<open>generateRiskAssessment\<close>

text \<open>The callback of \<open>topConsumerFields.map\<close>: three variables, overwritten by the first
  branch that applies.\<close>

definition assessField :: "TopField \<Rightarrow> CriticalField" where
  "assessField field =
     (if 1000 < consumers field then
        \<lparr>cf_field = tf_field field, risk = ''CRITICAL'',
         impact = ''System-wide failure possible'',
         recommendation = ''Implement extensive testing and rollback procedures''\<rparr>
      else if 500 < consumers field then
        \<lparr>cf_field = tf_field field, risk = ''HIGH'',
         impact = ''Major subsystem disruption'',
         recommendation = ''Require comprehensive impact analysis before changes''\<rparr>
      else if 100 < consumers field then
        \<lparr>cf_field = tf_field field, risk = ''MEDIUM'',
         impact = ''Moderate impact across multiple functions'',
         recommendation = ''Thorough testing of downstream effects required''\<rparr>
      else
        \<lparr>cf_field = tf_field field, risk = ''LOW'',
         impact = ''Minimal system disruption'',
         recommendation = ''Monitor for changes''\<rparr>)"

definition baseActions :: "string list" where
  "baseActions =
     [''Implement comprehensive impact analysis tools'',
      ''Establish change approval process for critical fields'',
      ''Create automated testing for high-impact dependencies'',
      ''Document business logic for critical BusinessFunctions'',
      ''Consider microservice boundaries to reduce coupling'']"

definition generateRiskAssessment :: "SystemStats \<Rightarrow> FieldDistribution \<Rightarrow> RiskAssessment" where
  "generateRiskAssessment stats distribution =
     (let criticalFields = map assessField (topConsumerFields distribution);
          highRiskCount =
            length (filter (\<lambda>f. risk f = ''CRITICAL'' \<or> risk f = ''HIGH'') criticalFields);
          systemFragility =
            (if 20 < highRiskCount then ''CRITICAL''
             else if 10 < highRiskCount then ''HIGH''
             else if 5 < highRiskCount then ''MEDIUM''
             else ''LOW'');
          recommendedActions =
            (if systemFragility = ''CRITICAL''
             then [''URGENT: Establish emergency rollback procedures''] @ baseActions
                  @ [''Consider system architecture redesign'']
             else baseActions)
      in \<lparr>criticalFields = criticalFields, systemFragility = systemFragility,
          recommendedActions = recommendedActions\<rparr>)"

subsection \<open>main\<close>

text \<open>
  The \<open>try\<close> block of \<open>main\<close> up to the report. The three sub-aggregations are started
  together; the model runs them one after the other. The arguments are the values of
  \<open>options.includeConnectivity !== false\<close> and of
  \<open>options.includeDistribution !== false && options.includeTopFields !== false\<close>, and
  the parsed top count.
\<close>

definition impact_summary_main :: "bool \<Rightarrow> bool \<Rightarrow> nat \<Rightarrow> ImpactSummaryReport promise" where
  "impact_summary_main includeConnectivity includeDistribution topCount =
     await getSystemStats (\<lambda>systemStats.
     await (if includeConnectivity then getConnectivityStats
            else resolve fallbackConnectivityStats) (\<lambda>connectivityStats.
     await (if includeDistribution then getFieldDistribution topCount
            else resolve fallbackFieldDistribution) (\<lambda>fieldDistribution.
       resolve
         \<lparr>systemStats = systemStats, connectivityStats = connectivityStats,
          fieldDistribution = fieldDistribution,
          riskAssessment = generateRiskAssessment systemStats fieldDistribution\<rparr>)))"

section \<open>tools/critical-fields.ts\<close>

record FieldImpactData =
  fieldName :: string
  producerCount :: nat
  consumerCount :: nat
  impactRatio :: number
  totalConnections :: nat

record DistributionStats =
  lowImpact :: nat
  mediumImpact :: nat
  highImpact :: nat
  criticalImpact :: nat

record CriticalFieldsSummary =
  summary_totalFields :: nat
  highImpactFields :: "FieldImpactData list"
  averageConsumers :: number
  maxConsumers :: number
  distributionStats :: DistributionStats

definition getSortClause :: "string \<Rightarrow> string" where
  "getSortClause sortBy =
     (if sortBy = ''consumers'' then ''consumerCount''
      else if sortBy = ''producers'' then ''producerCount''
      else if sortBy = ''ratio'' then ''impactRatio''
      else ''consumerCount'')"

record CriticalFieldRow =
  row_fieldName :: string
  row_producerCount :: nat
  row_consumerCount :: nat
  row_impactRatio :: real
  row_totalConnections :: nat

text \<open>The value of the column named in \<open>ORDER BY\<close>.\<close>

definition sort_column :: "string \<Rightarrow> CriticalFieldRow \<Rightarrow> real" where
  "sort_column col row =
     (if col = ''producerCount'' then real (row_producerCount row)
      else if col = ''impactRatio'' then row_impactRatio row
      else real (row_consumerCount row))"

definition cypher_criticalFields :: "nat \<Rightarrow> nat \<Rightarrow> string \<Rightarrow> graph \<Rightarrow> CriticalFieldRow list" where
  "cypher_criticalFields minConsumers limit sortBy g =
     take limit (order_by_desc (sort_column (getSortClause sortBy))
       [\<lparr>row_fieldName = ef_name f,
         row_producerCount = length (producers_of g f),
         row_consumerCount = length (consumers_of g f),
         row_impactRatio = real (length (consumers_of g f)) / real (length (producers_of g f)),
         row_totalConnections = length (producers_of g f) + length (consumers_of g f)\<rparr>.
        f \<leftarrow> ef_nodes g,
        0 < length (producers_of g f) \<and> minConsumers \<le> length (consumers_of g f)])"

definition analyzeCriticalFields :: "nat \<Rightarrow> nat \<Rightarrow> string \<Rightarrow> FieldImpactData list promise" where
  "analyzeCriticalFields minConsumers limit sortBy =
     await (queryNeo4j (\<lambda>g. Inr (cypher_criticalFields minConsumers limit sortBy g))) (\<lambda>results.
       resolve (map (\<lambda>row.
         \<lparr>fieldName = row_fieldName row,
          producerCount = row_producerCount row,
          consumerCount = row_consumerCount row,
          impactRatio =
            (if row_impactRatio row \<noteq> 0 then Finite (row_impactRatio row)
             else js_div (real (row_consumerCount row)) (real (max (row_producerCount row) 1))),
          totalConnections =
            (if row_totalConnections row \<noteq> 0 then row_totalConnections row
             else row_producerCount row + row_consumerCount row)\<rparr>) results))"

definition cypher_fieldDistributionStats :: "graph \<Rightarrow> DistributionStats list" where
  "cypher_fieldDistributionStats g =
     (let cs = consumerCounts g in
      [\<lparr>lowImpact = sum_case (\<lambda>c. c < 10) cs,
        mediumImpact = sum_case (\<lambda>c. 10 \<le> c \<and> c < 100) cs,
        highImpact = sum_case (\<lambda>c. 100 \<le> c \<and> c < 1000) cs,
        criticalImpact = sum_case (\<lambda>c. 1000 \<le> c) cs\<rparr>])"

definition getFieldDistributionStats :: "DistributionStats promise" where
  "getFieldDistributionStats =
     await (queryNeo4j (\<lambda>g. Inr (cypher_fieldDistributionStats g))) (\<lambda>results.
       case results of
         row # _ \<Rightarrow> resolve row
       | [] \<Rightarrow>
           resolve \<lparr>lowImpact = 0, mediumImpact = 0, highImpact = 0, criticalImpact = 0\<rparr>)"

definition generateSummary :: "FieldImpactData list \<Rightarrow> DistributionStats \<Rightarrow> CriticalFieldsSummary" where
  "generateSummary fs stats =
     (let totalFields = length fs;
          averageConsumers =
            js_div (real (fold (\<lambda>f sum. sum + consumerCount f) fs 0)) (real totalFields);
          maxConsumers = Math_max (map consumerCount fs)
      in \<lparr>summary_totalFields = totalFields, highImpactFields = take 10 fs,
          averageConsumers = averageConsumers, maxConsumers = maxConsumers,
          distributionStats = stats\<rparr>)"

text \<open>The risk word printed by \<open>formatOutput\<close> in the section Risk Assessment.\<close>

definition riskLabel :: "FieldImpactData \<Rightarrow> string" where
  "riskLabel f =
     (if 1000 < consumerCount f then ''CRITICAL''
      else if 500 < consumerCount f then ''HIGH''
      else if 100 < consumerCount f then ''MEDIUM''
      else ''LOW'')"

text \<open>The \<open>try\<close> block of \<open>main\<close>, up to the summary handed to \<open>formatOutput\<close>.\<close>

definition critical_fields_main ::
    "nat \<Rightarrow> nat \<Rightarrow> string \<Rightarrow> string \<Rightarrow> (FieldImpactData list \<times> CriticalFieldsSummary option) promise" where
  "critical_fields_main minConsumers limit sortBy format =
     await (analyzeCriticalFields minConsumers limit sortBy) (\<lambda>fs.
       if format = ''summary'' then
         await getFieldDistributionStats (\<lambda>stats.
           resolve (fs, Some (generateSummary fs stats)))
       else resolve (fs, None))"

section \<open>tools/dependency-path.ts\<close>

record DependencyPath =
  dp_sourceBusinessFunction :: "string option"
  dp_targetBusinessFunction :: "string option"
  pathLength :: nat
  businessFunctions :: "string list"
  dp_fields :: "string list"
  pathDescription :: string

datatype node = BF BusinessFunction | EF ElementalField | GF GroupField

fun node_name :: "node \<Rightarrow> string" where
  "node_name (BF b) = bf_name b"
| "node_name (EF f) = ef_name f"
| "node_name (GF f) = gf_name f"

text \<open>
  The path patterns of this tool put no label on the nodes inside a path and follow both
  relationship types in either direction: every relationship of the graph, given by its
  unit and its field node.
\<close>

definition path_rels :: "graph \<Rightarrow> (BusinessFunction \<times> node) list" where
  "path_rels g =
     map (\<lambda>r. (rel_bf r, EF (rel_field r))) (rels g)
     @ map (\<lambda>r. (grel_bf r, GF (grel_field r))) (group_rels g)"

text \<open>The node at the other end of a relationship, when the relationship touches the node.\<close>

fun other_end :: "BusinessFunction \<times> node \<Rightarrow> node \<Rightarrow> node list" where
  "other_end (b, f) (BF b') = (if b = b' then [f] else [])"
| "other_end (b, f) n = (if f = n then [BF b] else [])"

text \<open>One undirected step from a node over a relationship not used before in the path.\<close>

definition expand :: "graph \<Rightarrow> nat list \<Rightarrow> node \<Rightarrow> (nat \<times> node) list" where
  "expand g used n =
     [(i, m). (i, r) \<leftarrow> enumerate 0 (path_rels g), i \<notin> set used, m \<leftarrow> other_end r n]"

text \<open>
  The pattern \<open>-[*1..k]-\<close> from a node: every path of one to \<open>k\<close> relationships, no
  relationship twice, in either direction; a path is given by the nodes after the first.
\<close>

fun trails :: "graph \<Rightarrow> nat \<Rightarrow> nat list \<Rightarrow> node \<Rightarrow> node list list" where
  "trails g 0 used n = []"
| "trails g (Suc k) used n =
     concat (map (\<lambda>(i, m). [m] # map ((#) m) (trails g k (i # used) m)) (expand g used n))"

text \<open>\<open>MATCH path = (source)-[*1..k]-(target)\<close>: \<open>nodes(path)\<close> of every match.\<close>

definition var_length_paths ::
    "graph \<Rightarrow> BusinessFunction \<Rightarrow> BusinessFunction \<Rightarrow> nat \<Rightarrow> node list list" where
  "var_length_paths g s t k = [BF s # p. p \<leftarrow> trails g k [] (BF s), last p = BF t]"

text \<open>\<open>shortestPath((source)-[*1..k]-(target))\<close>: one match with the fewest relationships.\<close>

definition shortestPath ::
    "graph \<Rightarrow> BusinessFunction \<Rightarrow> BusinessFunction \<Rightarrow> nat \<Rightarrow> node list list" where
  "shortestPath g s t k =
     (case var_length_paths g s t k of [] \<Rightarrow> [] | p # ps \<Rightarrow> [arg_min_list length (p # ps)])"

record PathRow =
  row_sourceBusinessFunction :: "string option"
  row_targetBusinessFunction :: "string option"
  row_pathLength :: nat
  row_businessFunctions :: "string list"
  row_fields :: "string list"

text \<open>\<open>[n in nodes(path) WHERE n:BusinessFunction | n.name]\<close> and
  \<open>[n in nodes(path) WHERE n:ElementalField | n.name]\<close>.\<close>

definition bf_names :: "node list \<Rightarrow> string list" where
  "bf_names nodes = [bf_name b. BF b \<leftarrow> nodes]"

definition ef_names :: "node list \<Rightarrow> string list" where
  "ef_names nodes = [ef_name f. EF f \<leftarrow> nodes]"

text \<open>The \<open>WITH\<close> and \<open>RETURN\<close> clauses shared by the three statements;
  \<open>length(path)\<close> is the number of relationships, and \<open>list[0]\<close>, \<open>list[-1]\<close> of an empty
  list are \<open>null\<close>.\<close>

definition pathRow :: "node list \<Rightarrow> PathRow" where
  "pathRow nodes =
     (let businessFunctions = bf_names nodes;
          fieldNames = ef_names nodes
      in \<lparr>row_sourceBusinessFunction = first businessFunctions,
          row_targetBusinessFunction = first (rev businessFunctions),
          row_pathLength = (length nodes - 1) div 2,
          row_businessFunctions = businessFunctions,
          row_fields = fieldNames\<rparr>)"

text \<open>
  The statement of strategy \<open>shortest\<close>. With its default settings the store refuses a
  shortest path whose two ends are the same node.
\<close>

definition cypher_shortest :: "string \<Rightarrow> string \<Rightarrow> nat \<Rightarrow> nat \<Rightarrow> graph \<Rightarrow> string + PathRow list" where
  "cypher_shortest source target maxDepth limit g =
     (if [s. s \<leftarrow> bf_nodes g, bf_name s = source, t \<leftarrow> bf_nodes g, bf_name t = target, s = t] \<noteq> []
      then Inl ''The shortest path algorithm does not work when the start and end nodes are the same''
      else Inr (take limit
        [pathRow p. s \<leftarrow> bf_nodes g, bf_name s = source, t \<leftarrow> bf_nodes g, bf_name t = target,
                    p \<leftarrow> shortestPath g s t (maxDepth * 2)]))"

definition matched_paths :: "string \<Rightarrow> string \<Rightarrow> nat \<Rightarrow> graph \<Rightarrow> node list list" where
  "matched_paths source target maxDepth g =
     [p. s \<leftarrow> bf_nodes g, bf_name s = source, t \<leftarrow> bf_nodes g, bf_name t = target,
         p \<leftarrow> var_length_paths g s t (maxDepth * 2), length p - 1 \<le> maxDepth * 2]"

definition cypher_all :: "string \<Rightarrow> string \<Rightarrow> nat \<Rightarrow> nat \<Rightarrow> graph \<Rightarrow> PathRow list" where
  "cypher_all source target maxDepth limit g =
     take limit (order_by_asc row_pathLength (map pathRow (matched_paths source target maxDepth g)))"

definition cypher_longest :: "string \<Rightarrow> string \<Rightarrow> nat \<Rightarrow> nat \<Rightarrow> graph \<Rightarrow> PathRow list" where
  "cypher_longest source target maxDepth limit g =
     take limit (order_by_desc row_pathLength
       (map pathRow [p. s \<leftarrow> bf_nodes g, bf_name s = source, t \<leftarrow> bf_nodes g, bf_name t = target,
                        p \<leftarrow> var_length_paths g s t (maxDepth * 2)]))"

fun description_parts :: "string list \<Rightarrow> string list \<Rightarrow> string list" where
  "description_parts [] fs = []"
| "description_parts [b] fs = [b]"
| "description_parts (b # bs) [] = b # ''-->'' # description_parts bs []"
| "description_parts (b # bs) (f # fs) = b # (''--['' @ f @ '']-->'') # description_parts bs fs"

fun join :: "string \<Rightarrow> string list \<Rightarrow> string" where
  "join sep [] = []"
| "join sep [x] = x"
| "join sep (x # xs) = x @ sep @ join sep xs"

definition generatePathDescription :: "string list \<Rightarrow> string list \<Rightarrow> string" where
  "generatePathDescription bfs fs = (if bfs = [] then [] else join '' '' (description_parts bfs fs))"

definition toDependencyPath :: "PathRow \<Rightarrow> DependencyPath" where
  "toDependencyPath row =
     \<lparr>dp_sourceBusinessFunction = row_sourceBusinessFunction row,
      dp_targetBusinessFunction = row_targetBusinessFunction row,
      pathLength = row_pathLength row,
      businessFunctions = row_businessFunctions row,
      dp_fields = row_fields row,
      pathDescription = generatePathDescription (row_businessFunctions row) (row_fields row)\<rparr>"

definition findDependencyPaths ::
    "string \<Rightarrow> string \<Rightarrow> nat \<Rightarrow> string \<Rightarrow> nat \<Rightarrow> DependencyPath list promise" where
  "findDependencyPaths source target maxDepth pathType limit =
     (if pathType = ''shortest'' then
        await (queryNeo4j (cypher_shortest source target maxDepth limit)) (\<lambda>results.
          resolve (map toDependencyPath results))
      else if pathType = ''all'' then
        await (queryNeo4j (\<lambda>g. Inr (cypher_all source target maxDepth limit g))) (\<lambda>results.
          resolve (map toDependencyPath results))
      else if pathType = ''longest'' then
        await (queryNeo4j (\<lambda>g. Inr (cypher_longest source target maxDepth limit g))) (\<lambda>results.
          resolve (map toDependencyPath results))
      else reject (Error (''Unknown path type: '' @ pathType)))"

section \<open>tools/impact-analysis.ts\<close>

record ImpactResult =
  sourceBusinessFunction :: string
  sourceOutputField :: string
  affectedBusinessFunction :: string
  affectedOutputField :: string
  impactDepth :: nat
  pathFields :: "string list"

text \<open>
  The first clauses of both statements: the source unit and the field it writes, found
  from the field name (\<open>isOutputField\<close>) or from the unit name.
\<close>

definition match_source ::
    "string \<Rightarrow> bool \<Rightarrow> graph \<Rightarrow> (BusinessFunction \<times> ElementalField) list" where
  "match_source identifier isOutputField g =
     (if isOutputField then
        [(rel_bf r, rel_field r).
           r \<leftarrow> rels g, rtype r = HAS_OUTPUT_FIELD, ef_name (rel_field r) = identifier]
      else
        [(source_bf, rel_field r).
           source_bf \<leftarrow> bf_nodes g, bf_name source_bf = identifier,
           r \<leftarrow> rels g, rtype r = HAS_OUTPUT_FIELD, rel_bf r = source_bf])"

definition cypher_directImpact :: "string \<Rightarrow> bool \<Rightarrow> graph \<Rightarrow> ImpactResult list" where
  "cypher_directImpact identifier isOutputField g =
     [\<lparr>sourceBusinessFunction = bf_name source_bf,
       sourceOutputField = outputName source_bf,
       affectedBusinessFunction = bf_name affected_bf,
       affectedOutputField = outputName affected_bf,
       impactDepth = 1,
       pathFields = [ef_name output_field]\<rparr>.
      (source_bf, output_field) \<leftarrow> match_source identifier isOutputField g,
      affected_bf \<leftarrow> consumers_of g output_field]"

definition analyzeDirectImpact :: "string \<Rightarrow> bool \<Rightarrow> ImpactResult list promise" where
  "analyzeDirectImpact identifier isOutputField =
     await (queryNeo4j (\<lambda>g. Inr (cypher_directImpact identifier isOutputField g))) (\<lambda>results.
       resolve results)"

text \<open>
  The generated clauses
  \<open>MATCH (field i)<-[:HAS_INPUT_FIELD]-(bf i+1)-[:HAS_OUTPUT_FIELD]->(field i+1)\<close>,
  \<open>n\<close> of them from a field: the names of the fields reached, and the last field.
\<close>

fun hops :: "graph \<Rightarrow> nat \<Rightarrow> ElementalField \<Rightarrow> (string list \<times> ElementalField) list" where
  "hops g 0 f = [([], f)]"
| "hops g (Suc n) f =
     [(ef_name (rel_field r2) # names, last_field).
        r1 \<leftarrow> rels g, rtype r1 = HAS_INPUT_FIELD, rel_field r1 = f,
        r2 \<leftarrow> rels g, rtype r2 = HAS_OUTPUT_FIELD, rel_bf r2 = rel_bf r1,
        (names, last_field) \<leftarrow> hops g n (rel_field r2)]"

text \<open>The statement built in the iteration \<open>depth\<close> of the loop, with its \<open>LIMIT 100\<close>.\<close>

definition cypher_multiHopImpact :: "string \<Rightarrow> bool \<Rightarrow> nat \<Rightarrow> graph \<Rightarrow> ImpactResult list" where
  "cypher_multiHopImpact identifier isOutputField depth g =
     take 100
       [\<lparr>sourceBusinessFunction = bf_name source_bf,
         sourceOutputField = outputName source_bf,
         affectedBusinessFunction = bf_name final_bf,
         affectedOutputField = outputName final_bf,
         impactDepth = depth + 1,
         pathFields = ef_name start_field # names\<rparr>.
        (source_bf, start_field) \<leftarrow> match_source identifier isOutputField g,
        (names, last_field) \<leftarrow> hops g depth start_field,
        final_bf \<leftarrow> consumers_of g last_field]"

text \<open>The loop \<open>for (let depth = 1; depth <= maxDepth; depth++)\<close> with its variable
  \<open>results\<close>; a query that throws ends the function.\<close>

function multiHop_loop ::
    "string \<Rightarrow> bool \<Rightarrow> nat \<Rightarrow> nat \<Rightarrow> ImpactResult list \<Rightarrow> ImpactResult list promise" where
  "multiHop_loop identifier isOutputField maxDepth depth results db =
     (if depth \<le> maxDepth then
        (case queryNeo4j (\<lambda>g. Inr (cypher_multiHopImpact identifier isOutputField depth g)) db of
           (Inl e, db') \<Rightarrow> (Inl e, db')
         | (Inr depthResults, db') \<Rightarrow>
             multiHop_loop identifier isOutputField maxDepth (depth + 1)
               (results @ depthResults) db')
      else (Inr results, db))"
  by pat_completeness auto
termination
  by (relation "measure (\<lambda>(identifier, isOutputField, maxDepth, depth, results, db).
        Suc maxDepth - depth)") auto

definition analyzeMultiHopImpact :: "string \<Rightarrow> bool \<Rightarrow> nat \<Rightarrow> ImpactResult list promise" where
  "analyzeMultiHopImpact identifier isOutputField maxDepth =
     multiHop_loop identifier isOutputField maxDepth 1 []"

text \<open>The validation of the depth in \<open>main\<close> and the choice between the two analyses.\<close>

definition impact_analysis_main :: "string \<Rightarrow> bool \<Rightarrow> nat \<Rightarrow> ImpactResult list promise" where
  "impact_analysis_main identifier isOutputField depth =
     (if depth < 1 then reject (Error ''Depth must be a positive integer'')
      else if depth = 1 then analyzeDirectImpact identifier isOutputField
      else analyzeMultiHopImpact identifier isOutputField depth)"

section \<open>Example graphs\<close>

definition healthy :: "graph \<Rightarrow> neo4j" where
  "healthy g = \<lparr>graph = g, outage = (\<lambda>k. None), issued = 0\<rparr>"

definition unreachable :: "graph \<Rightarrow> neo4j" where
  "unreachable g = \<lparr>graph = g, outage = (\<lambda>k. Some ''ServiceUnavailable''), issued = 0\<rparr>"

definition empty_graph :: graph where
  "empty_graph = \<lparr>bf_nodes = [], ef_nodes = [], rels = [], group_rels = []\<rparr>"

definition unit :: "nat \<Rightarrow> string \<Rightarrow> string \<Rightarrow> BusinessFunction" where
  "unit i n out = \<lparr>bf_id = i, bf_name = n, outputName = out\<rparr>"

definition fld :: "nat \<Rightarrow> string \<Rightarrow> ElementalField" where
  "fld i n = \<lparr>ef_id = i, ef_name = n\<rparr>"

definition produces :: "BusinessFunction \<Rightarrow> ElementalField \<Rightarrow> relationship" where
  "produces b f = \<lparr>rtype = HAS_OUTPUT_FIELD, rel_bf = b, rel_field = f\<rparr>"

definition consumes :: "BusinessFunction \<Rightarrow> ElementalField \<Rightarrow> relationship" where
  "consumes b f = \<lparr>rtype = HAS_INPUT_FIELD, rel_bf = b, rel_field = f\<rparr>"

text \<open>Unit A writes F1; unit B reads F1 and writes F2; unit C reads F2 and writes F3.\<close>

definition three_units :: graph where
  "three_units =
     \<lparr>bf_nodes = [unit 1 ''A'' ''F1'', unit 2 ''B'' ''F2'', unit 3 ''C'' ''F3''],
      ef_nodes = [fld 1 ''F1'', fld 2 ''F2'', fld 3 ''F3''],
      rels = [produces (unit 1 ''A'' ''F1'') (fld 1 ''F1''),
              consumes (unit 2 ''B'' ''F2'') (fld 1 ''F1''),
              produces (unit 2 ''B'' ''F2'') (fld 2 ''F2''),
              consumes (unit 3 ''C'' ''F3'') (fld 2 ''F2''),
              produces (unit 3 ''C'' ''F3'') (fld 3 ''F3'')],
      group_rels = []\<rparr>"

section \<open>The risk tiers in the words of the specification\<close>

text \<open>
  The specification: consumer count above 1000 is CRITICAL, above 500 HIGH, above 100
  MEDIUM, else LOW, and each tier carries a fixed impact statement and recommendation.
\<close>

definition spec_riskTier :: "nat \<Rightarrow> string" where
  "spec_riskTier c =
     (if c > 1000 then ''CRITICAL'' else if c > 500 then ''HIGH''
      else if c > 100 then ''MEDIUM'' else ''LOW'')"

definition tierImpact :: "string \<Rightarrow> string" where
  "tierImpact tier =
     (if tier = ''CRITICAL'' then ''System-wide failure possible''
      else if tier = ''HIGH'' then ''Major subsystem disruption''
      else if tier = ''MEDIUM'' then ''Moderate impact across multiple functions''
      else ''Minimal system disruption'')"

definition tierRecommendation :: "string \<Rightarrow> string" where
  "tierRecommendation tier =
     (if tier = ''CRITICAL'' then ''Implement extensive testing and rollback procedures''
      else if tier = ''HIGH'' then ''Require comprehensive impact analysis before changes''
      else if tier = ''MEDIUM'' then ''Thorough testing of downstream effects required''
      else ''Monitor for changes'')"

text \<open>The fragility thresholds in the words of the specification.\<close>

definition spec_fragility :: "nat \<Rightarrow> string" where
  "spec_fragility n =
     (if n > 20 then ''CRITICAL'' else if n > 10 then ''HIGH''
      else if n > 5 then ''MEDIUM'' else ''LOW'')"

text \<open>A store whose first query fails and whose later queries succeed.\<close>

definition first_query_fails :: "graph \<Rightarrow> neo4j" where
  "first_query_fails g =
     \<lparr>graph = g, outage = (\<lambda>k. if k = 0 then Some ''SessionExpired'' else None), issued = 0\<rparr>"



text \<open>A cyclic chain: unit A writes F1; unit B reads F1 and writes F2; unit A reads F2.\<close>

definition cyclic_units :: graph where
  "cyclic_units =
     \<lparr>bf_nodes = [unit 1 ''A'' ''F1'', unit 2 ''B'' ''F2''],
      ef_nodes = [fld 1 ''F1'', fld 2 ''F2''],
      rels = [produces (unit 1 ''A'' ''F1'') (fld 1 ''F1''),
              consumes (unit 2 ''B'' ''F2'') (fld 1 ''F1''),
              produces (unit 2 ''B'' ''F2'') (fld 2 ''F2''),
              consumes (unit 1 ''A'' ''F1'') (fld 2 ''F2'')],
      group_rels = []\<rparr>"

section \<open>Shape of a path\<close>

fun is_BF :: "node \<Rightarrow> bool" where
  "is_BF (BF b) = True"
| "is_BF (EF f) = False"
| "is_BF (GF f) = False"

fun is_GF :: "node \<Rightarrow> bool" where
  "is_GF (GF f) = True"
| "is_GF n = False"

text \<open>Units and fields alternate along a list of nodes.\<close>

fun alternating :: "node list \<Rightarrow> bool" where
  "alternating [] = True"
| "alternating [n] = True"
| "alternating (n # m # ns) = (is_BF n \<noteq> is_BF m \<and> alternating (m # ns))"

text \<open>
  Two units with the same display name A. The first writes F, read by T. The second
  writes G, read by M, which writes H, read by T.
\<close>

definition two_units_named_A :: graph where
  "two_units_named_A =
     \<lparr>bf_nodes = [unit 1 ''A'' ''F'', unit 2 ''A'' ''G'', unit 3 ''T'' ''X'', unit 4 ''M'' ''H''],
      ef_nodes = [fld 1 ''F'', fld 2 ''G'', fld 3 ''H''],
      rels = [produces (unit 1 ''A'' ''F'') (fld 1 ''F''),
              consumes (unit 3 ''T'' ''X'') (fld 1 ''F''),
              produces (unit 2 ''A'' ''G'') (fld 2 ''G''),
              consumes (unit 4 ''M'' ''H'') (fld 2 ''G''),
              produces (unit 4 ''M'' ''H'') (fld 3 ''H''),
              consumes (unit 3 ''T'' ''X'') (fld 3 ''H'')],
      group_rels = []\<rparr>"

text \<open>Unit A writes F1, read by B and by C; B writes F2, read by C.\<close>

definition diamond :: graph where
  "diamond =
     \<lparr>bf_nodes = [unit 1 ''A'' ''F1'', unit 2 ''B'' ''F2'', unit 3 ''C'' ''F3''],
      ef_nodes = [fld 1 ''F1'', fld 2 ''F2''],
      rels = [produces (unit 1 ''A'' ''F1'') (fld 1 ''F1''),
              consumes (unit 2 ''B'' ''F2'') (fld 1 ''F1''),
              produces (unit 2 ''B'' ''F2'') (fld 2 ''F2''),
              consumes (unit 3 ''C'' ''F3'') (fld 2 ''F2''),
              consumes (unit 3 ''C'' ''F3'') (fld 1 ''F1'')],
      group_rels = []\<rparr>"

text \<open>Unit A writes the group field G, which unit B reads.\<close>

definition through_group_field :: graph where
  "through_group_field =
     \<lparr>bf_nodes = [unit 1 ''A'' ''G'', unit 2 ''B'' ''H''],
      ef_nodes = [],
      rels = [],
      group_rels =
        [\<lparr>grtype = HAS_OUTPUT_FIELD, grel_bf = unit 1 ''A'' ''G'',
          grel_field = \<lparr>gf_id = 1, gf_name = ''G''\<rparr>\<rparr>,
         \<lparr>grtype = HAS_INPUT_FIELD, grel_bf = unit 2 ''B'' ''H'',
          grel_field = \<lparr>gf_id = 1, gf_name = ''G''\<rparr>\<rparr>]\<rparr>"

text \<open>The paths found in the example graphs.\<close>

definition path_A_B :: DependencyPath where
  "path_A_B =
     \<lparr>dp_sourceBusinessFunction = Some ''A'', dp_targetBusinessFunction = Some ''B'',
      pathLength = 1, businessFunctions = [''A'', ''B''], dp_fields = [],
      pathDescription = ''A --> B''\<rparr>"

definition path_A_C :: DependencyPath where
  "path_A_C =
     \<lparr>dp_sourceBusinessFunction = Some ''A'', dp_targetBusinessFunction = Some ''C'',
      pathLength = 1, businessFunctions = [''A'', ''C''], dp_fields = [''F1''],
      pathDescription = ''A --[F1]--> C''\<rparr>"

definition path_A_B_C :: DependencyPath where
  "path_A_B_C =
     \<lparr>dp_sourceBusinessFunction = Some ''A'', dp_targetBusinessFunction = Some ''C'',
      pathLength = 2, businessFunctions = [''A'', ''B'', ''C''], dp_fields = [''F1'', ''F2''],
      pathDescription = ''A --[F1]--> B --[F2]--> C''\<rparr>"

definition path_A_T :: DependencyPath where
  "path_A_T =
     \<lparr>dp_sourceBusinessFunction = Some ''A'', dp_targetBusinessFunction = Some ''T'',
      pathLength = 1, businessFunctions = [''A'', ''T''], dp_fields = [''F''],
      pathDescription = ''A --[F]--> T''\<rparr>"

definition path_A_M_T :: DependencyPath where
  "path_A_M_T =
     \<lparr>dp_sourceBusinessFunction = Some ''A'', dp_targetBusinessFunction = Some ''T'',
      pathLength = 2, businessFunctions = [''A'', ''M'', ''T''], dp_fields = [''G'', ''H''],
      pathDescription = ''A --[G]--> M --[H]--> T''\<rparr>"

section \<open>Facts about queries\<close>

lemmas example_defs =
  healthy_def unreachable_def empty_graph_def three_units_def unit_def fld_def
  produces_def consumes_def

lemma queryNeo4j_rows:
  "queryNeo4j (\<lambda>g. Inr (f g)) db =
     (case outage db (issued db) of
        Some cause \<Rightarrow> Inl (Neo4jError cause)
      | None \<Rightarrow> Inr (f (graph db)),
      db\<lparr>issued := Suc (issued db)\<rparr>)"
  by (simp add: queryNeo4j_def split: option.splits)

section \<open>Impact analysis of the three-unit graph\<close>

text \<open>
  Claim C1. In the graph A -> F1 -> B -> F2 -> C the analysis of unit A with depth 1
  returns exactly B, tagged depth 1, and the analysis with depth 2 is claimed to return
  B (depth 1) and C (depth 2). The code agrees for depth 1. For depth 2 \<open>main\<close> calls
  \<open>analyzeMultiHopImpact\<close>, whose iteration \<open>depth\<close> matches \<open>depth\<close> intermediate units
  before the affected one and tags the row \<open>depth + 1\<close>: the direct consumer B is not in the
  result, which is C alone, tagged depth 2.
\<close>

theorem impact_of_A_in_three_units:
  "fst (impact_analysis_main ''A'' False 1 (healthy three_units)) =
     Inr [\<lparr>sourceBusinessFunction = ''A'', sourceOutputField = ''F1'',
           affectedBusinessFunction = ''B'', affectedOutputField = ''F2'',
           impactDepth = 1, pathFields = [''F1'']\<rparr>]
   \<and> fst (impact_analysis_main ''A'' False 2 (healthy three_units)) =
     Inr [\<lparr>sourceBusinessFunction = ''A'', sourceOutputField = ''F1'',
           affectedBusinessFunction = ''C'', affectedOutputField = ''F3'',
           impactDepth = 2, pathFields = [''F1'', ''F2'']\<rparr>]"
  by (simp add: impact_analysis_main_def analyzeDirectImpact_def analyzeMultiHopImpact_def
      await_def queryNeo4j_def resolve_def cypher_directImpact_def cypher_multiHopImpact_def
      match_source_def consumers_of_def example_defs numeral_2_eq_2)

section \<open>Risk tiers and fragility (impact-summary.ts, critical-fields.ts)\<close>

lemma assessField_tier:
  "assessField f =
     \<lparr>cf_field = tf_field f, risk = spec_riskTier (consumers f),
      impact = tierImpact (spec_riskTier (consumers f)),
      recommendation = tierRecommendation (spec_riskTier (consumers f))\<rparr>"
  by (simp add: assessField_def spec_riskTier_def tierImpact_def tierRecommendation_def)

text \<open>
  Claim C4. The risk tier of a field is a function of its consumer count alone: above 1000
  CRITICAL, above 500 HIGH, above 100 MEDIUM, otherwise LOW (1500, 600, 150 and 5 give
  the four tiers), and the impact statement and the recommendation are fixed per tier.
  \<open>generateRiskAssessment\<close> classifies every top consumer field so, and the risk word
  printed by the critical-fields tool follows the same thresholds.
\<close>

theorem risk_tier_by_consumer_count:
  "criticalFields (generateRiskAssessment stats distribution) =
     map (\<lambda>f. \<lparr>cf_field = tf_field f, risk = spec_riskTier (consumers f),
                impact = tierImpact (spec_riskTier (consumers f)),
                recommendation = tierRecommendation (spec_riskTier (consumers f))\<rparr>)
       (topConsumerFields distribution)
   \<and> riskLabel row = spec_riskTier (consumerCount row)
   \<and> spec_riskTier 1500 = ''CRITICAL'' \<and> spec_riskTier 600 = ''HIGH''
   \<and> spec_riskTier 150 = ''MEDIUM'' \<and> spec_riskTier 5 = ''LOW''"
  by (simp add: generateRiskAssessment_def Let_def assessField_tier riskLabel_def spec_riskTier_def)

lemma risk_high_iff:
  "(risk (assessField f) = ''CRITICAL'' \<or> risk (assessField f) = ''HIGH'') = (500 < consumers f)"
  by (simp add: assessField_def)

lemma highRiskCount_eq:
  "length (filter (\<lambda>f. risk f = ''CRITICAL'' \<or> risk f = ''HIGH'') (map assessField fs)) =
   length (filter (\<lambda>f. 500 < consumers f) fs)"
  by (induction fs) (simp_all add: risk_high_iff)

text \<open>
  Claim C5. The system fragility is CRITICAL when more than 20 of the ranked fields are
  classified HIGH or CRITICAL, HIGH when more than 10, MEDIUM when more than 5, LOW
  otherwise; the recommended actions are the fixed base list, with the emergency-rollback
  action in front and the architecture-redesign action at the end exactly when the
  fragility is CRITICAL.
\<close>

theorem fragility_rating_and_actions:
  "systemFragility (generateRiskAssessment stats distribution) =
     spec_fragility (length (filter (\<lambda>f. risk f = ''HIGH'' \<or> risk f = ''CRITICAL'')
        (criticalFields (generateRiskAssessment stats distribution))))
   \<and> systemFragility (generateRiskAssessment stats distribution) =
     spec_fragility (length (filter (\<lambda>f. 500 < consumers f) (topConsumerFields distribution)))
   \<and> recommendedActions (generateRiskAssessment stats distribution) =
     (if systemFragility (generateRiskAssessment stats distribution) = ''CRITICAL''
      then ''URGENT: Establish emergency rollback procedures'' # baseActions
           @ [''Consider system architecture redesign'']
      else baseActions)
   \<and> (''URGENT: Establish emergency rollback procedures''
        \<in> set (recommendedActions (generateRiskAssessment stats distribution))) =
      (systemFragility (generateRiskAssessment stats distribution) = ''CRITICAL'')
   \<and> (''Consider system architecture redesign''
        \<in> set (recommendedActions (generateRiskAssessment stats distribution))) =
      (systemFragility (generateRiskAssessment stats distribution) = ''CRITICAL'')"
proof -
  let ?ra = "generateRiskAssessment stats distribution"
  let ?tops = "topConsumerFields distribution"
  have b: "criticalFields ?ra = map assessField ?tops"
    by (simp add: generateRiskAssessment_def Let_def)
  have swap: "(\<lambda>f. risk f = ''HIGH'' \<or> risk f = ''CRITICAL'') =
              (\<lambda>f. risk f = ''CRITICAL'' \<or> risk f = ''HIGH'')"
    by auto
  have a: "systemFragility ?ra =
     spec_fragility (length (filter (\<lambda>f. risk f = ''CRITICAL'' \<or> risk f = ''HIGH'')
        (map assessField ?tops)))"
    by (simp add: generateRiskAssessment_def Let_def spec_fragility_def)
  have c1: "systemFragility ?ra =
     spec_fragility (length (filter (\<lambda>f. risk f = ''HIGH'' \<or> risk f = ''CRITICAL'')
        (criticalFields ?ra)))"
    unfolding b swap by (rule a)
  have c2: "systemFragility ?ra =
     spec_fragility (length (filter (\<lambda>f. 500 < consumers f) ?tops))"
    using a unfolding highRiskCount_eq .
  have c3: "recommendedActions ?ra =
     (if systemFragility ?ra = ''CRITICAL''
      then ''URGENT: Establish emergency rollback procedures'' # baseActions
           @ [''Consider system architecture redesign'']
      else baseActions)"
    by (simp add: generateRiskAssessment_def Let_def)
  have d: "''URGENT: Establish emergency rollback procedures'' \<notin> set baseActions"
       "''Consider system architecture redesign'' \<notin> set baseActions"
    by (simp_all add: baseActions_def)
  have c4: "(''URGENT: Establish emergency rollback procedures'' \<in> set (recommendedActions ?ra)) =
      (systemFragility ?ra = ''CRITICAL'')"
    unfolding c3 using d by simp
  have c5: "(''Consider system architecture redesign'' \<in> set (recommendedActions ?ra)) =
      (systemFragility ?ra = ''CRITICAL'')"
    unfolding c3 using d by simp
  from c1 c2 c3 c4 c5 show ?thesis by blast
qed

section \<open>The sub-aggregations never fail (impact-summary.ts)\<close>

lemma getSystemStats_resolves: "\<exists>s db'. getSystemStats db = (Inr s, db')"
  by (auto simp: getSystemStats_def try_catch_def resolve_def split: prod.splits sum.splits)

lemma getConnectivityStats_resolves: "\<exists>s db'. getConnectivityStats db = (Inr s, db')"
  by (auto simp: getConnectivityStats_def try_catch_def resolve_def split: prod.splits sum.splits)

lemma getFieldDistribution_resolves: "\<exists>s db'. getFieldDistribution topCount db = (Inr s, db')"
  by (auto simp: getFieldDistribution_def try_catch_def resolve_def split: prod.splits sum.splits)

lemma getSystemStats_fallback:
  assumes "k < 4" "outage db (issued db + k) = Some cause"
  shows "fst (getSystemStats db) = Inr fallbackSystemStats"
proof -
  from assms(1) have "k = 0 \<or> k = 1 \<or> k = 2 \<or> k = 3" by arith
  with assms(2) show ?thesis
    by (auto simp: getSystemStats_def try_catch_def getSystemStats_try_def await_def
        queryNeo4j_rows resolve_def reject_def numeral_eq_Suc
        split: option.splits sum.splits prod.splits)
qed

lemma getConnectivityStats_fallback:
  assumes "k < 2" "outage db (issued db + k) = Some cause"
  shows "fst (getConnectivityStats db) = Inr fallbackConnectivityStats"
proof -
  from assms(1) have "k = 0 \<or> k = 1" by arith
  with assms(2) show ?thesis
    by (auto simp: getConnectivityStats_def try_catch_def getConnectivityStats_try_def await_def
        queryNeo4j_rows resolve_def reject_def
        split: option.splits sum.splits prod.splits)
qed

lemma getFieldDistribution_fallback:
  assumes "k < 3" "outage db (issued db + k) = Some cause"
  shows "fst (getFieldDistribution topCount db) = Inr fallbackFieldDistribution"
proof -
  from assms(1) have "k = 0 \<or> k = 1 \<or> k = 2" by arith
  with assms(2) show ?thesis
    by (auto simp: getFieldDistribution_def try_catch_def getFieldDistribution_try_def await_def
        queryNeo4j_rows resolve_def reject_def numeral_eq_Suc
        split: option.splits sum.splits prod.splits)
qed

text \<open>
  Claim C2 says that a failed graph query inside a sub-aggregation of the System
  Aggregator aborts the operation and reaches the caller with its cause. The code does
  the opposite on purpose: each of \<open>getSystemStats\<close>, \<open>getConnectivityStats\<close> and
  \<open>getFieldDistribution\<close> wraps its queries in \<open>try\<close>/\<open>catch\<close> and returns fallback data.
  With the store unreachable, \<open>getSystemStats\<close> returns the all-zero statistics and no
  error; when only the first query of a run fails, \<open>main\<close> builds a report whose system
  statistics are zeroed while the connectivity statistics come from the graph.
\<close>

theorem failed_query_does_not_propagate:
  "outage (unreachable three_units) (issued (unreachable three_units)) = Some ''ServiceUnavailable''
   \<and> fst (getSystemStats (unreachable three_units)) \<noteq> Inl (Neo4jError ''ServiceUnavailable'')
   \<and> fst (getSystemStats (unreachable three_units)) = Inr fallbackSystemStats
   \<and> (case fst (impact_summary_main True True 10 (first_query_fails three_units)) of
         Inl e \<Rightarrow> False
       | Inr report \<Rightarrow>
           systemStats report = fallbackSystemStats
           \<and> largestComponentSize (connectivityStats report) = 3)"
  by (simp add: getSystemStats_def try_catch_def getSystemStats_try_def await_def
        queryNeo4j_rows resolve_def impact_summary_main_def
        getConnectivityStats_def getConnectivityStats_try_def cypher_componentStats_def
        getFieldDistribution_def getFieldDistribution_try_def cypher_distributionStats_def
        Let_def first_query_fails_def unreachable_def three_units_def)

text \<open>
  Claim C2, amended. A sub-aggregation of the System Aggregator never fails: when one of
  its graph queries fails (any of the four of \<open>getSystemStats\<close>, the two of
  \<open>getConnectivityStats\<close>, the three of \<open>getFieldDistribution\<close>), it catches the failure
  and returns its fixed fallback value (all zeros, or empty lists) as a whole.
\<close>

theorem sub_aggregations_fall_back:
  "(\<forall>k cause. k < 4 \<and> outage db (issued db + k) = Some cause \<longrightarrow>
        fst (getSystemStats db) = Inr fallbackSystemStats)
   \<and> (\<forall>k cause. k < 2 \<and> outage db (issued db + k) = Some cause \<longrightarrow>
        fst (getConnectivityStats db) = Inr fallbackConnectivityStats)
   \<and> (\<forall>k cause. k < 3 \<and> outage db (issued db + k) = Some cause \<longrightarrow>
        fst (getFieldDistribution topCount db) = Inr fallbackFieldDistribution)
   \<and> (\<exists>s. fst (getSystemStats db) = Inr s)
   \<and> (\<exists>s. fst (getConnectivityStats db) = Inr s)
   \<and> (\<exists>s. fst (getFieldDistribution topCount db) = Inr s)"
proof -
  have "\<exists>s. fst (getSystemStats db) = Inr s"
    using getSystemStats_resolves [of db] by auto
  moreover have "\<exists>s. fst (getConnectivityStats db) = Inr s"
    using getConnectivityStats_resolves [of db] by auto
  moreover have "\<exists>s. fst (getFieldDistribution topCount db) = Inr s"
    using getFieldDistribution_resolves [of topCount db] by auto
  ultimately show ?thesis
    using getSystemStats_fallback [of _ db] getConnectivityStats_fallback [of _ db]
      getFieldDistribution_fallback [of _ db _ topCount]
    by blast
qed

theorem sub_aggregations_fall_back_witness:
  "outage (unreachable three_units) (issued (unreachable three_units) + 0) = Some ''ServiceUnavailable''
   \<and> fst (getSystemStats (unreachable three_units)) = Inr fallbackSystemStats
   \<and> fst (getConnectivityStats (unreachable three_units)) = Inr fallbackConnectivityStats
   \<and> fst (getFieldDistribution 10 (unreachable three_units)) = Inr fallbackFieldDistribution"
proof -
  have h: "(0::nat) < 4 \<and> outage (unreachable three_units) (issued (unreachable three_units) + 0) = Some ''ServiceUnavailable''"
          "(0::nat) < 2 \<and> outage (unreachable three_units) (issued (unreachable three_units) + 0) = Some ''ServiceUnavailable''"
          "(0::nat) < 3 \<and> outage (unreachable three_units) (issued (unreachable three_units) + 0) = Some ''ServiceUnavailable''"
    by (simp_all add: unreachable_def)
  from sub_aggregations_fall_back [of "unreachable three_units" 10] h show ?thesis
    by blast
qed

section \<open>The fragility rating under the top-count cap (impact-summary.ts)\<close>

lemma getFieldDistribution_top_length:
  "getFieldDistribution topCount db = (Inr fd, db') \<Longrightarrow> length (topConsumerFields fd) \<le> topCount"
  by (auto simp: getFieldDistribution_def try_catch_def getFieldDistribution_try_def await_def
        queryNeo4j_rows resolve_def reject_def fallbackFieldDistribution_def Let_def
        cypher_topConsumers_def
        split: option.splits sum.splits prod.splits if_splits)

lemma fragility_bounded:
  assumes "length (topConsumerFields fd) \<le> 20"
  shows "systemFragility (generateRiskAssessment s fd) \<noteq> ''CRITICAL''
       \<and> recommendedActions (generateRiskAssessment s fd) = baseActions"
proof -
  let ?n = "length (filter (\<lambda>f. risk f = ''CRITICAL'' \<or> risk f = ''HIGH'')
          (map assessField (topConsumerFields fd)))"
  have "?n \<le> length (map assessField (topConsumerFields fd))"
    by (rule length_filter_le)
  also have "\<dots> = length (topConsumerFields fd)"
    by (rule length_map)
  finally have "\<not> 20 < ?n"
    using assms by linarith
  then show ?thesis
    unfolding generateRiskAssessment_def Let_def by simp
qed

lemma impact_summary_main_report:
  "\<exists>s c fd db'. impact_summary_main ic idist topCount db =
       (Inr \<lparr>systemStats = s, connectivityStats = c, fieldDistribution = fd,
             riskAssessment = generateRiskAssessment s fd\<rparr>, db')
     \<and> length (topConsumerFields fd) \<le> topCount"
proof -
  obtain s db1 where 1: "getSystemStats db = (Inr s, db1)"
    using getSystemStats_resolves by blast
  obtain c db2 where 2: "(if ic then getConnectivityStats else resolve fallbackConnectivityStats) db1 = (Inr c, db2)"
    using getConnectivityStats_resolves [of db1] by (cases ic) (auto simp: resolve_def)
  obtain fd db3 where 3: "(if idist then getFieldDistribution topCount else resolve fallbackFieldDistribution) db2 = (Inr fd, db3)"
    using getFieldDistribution_resolves [of topCount db2] by (cases idist) (auto simp: resolve_def)
  have "length (topConsumerFields fd) \<le> topCount"
    using 3 getFieldDistribution_top_length [of topCount db2 fd db3]
    by (auto simp: resolve_def fallbackFieldDistribution_def split: if_splits)
  moreover have "impact_summary_main ic idist topCount db =
       (Inr \<lparr>systemStats = s, connectivityStats = c, fieldDistribution = fd,
             riskAssessment = generateRiskAssessment s fd\<rparr>, db3)"
    using 1 2 3 by (simp add: impact_summary_main_def await_def resolve_def)
  ultimately show ?thesis by blast
qed

text \<open>
  Claim C6. The count of HIGH or CRITICAL fields that decides the system fragility is taken
  over \<open>topConsumerFields\<close> only, and that list has at most \<open>topCount\<close> rows. So whenever
  the top count is at most 20, \<open>main\<close> produces a report whose fragility is not CRITICAL
  and whose recommended actions are the base list, without the emergency-rollback and the
  architecture-redesign actions, whatever the graph and whichever queries fail.
\<close>

theorem fragility_never_critical_under_cap:
  assumes "topCount \<le> 20"
  shows "\<exists>report db'. impact_summary_main ic idist topCount db = (Inr report, db')
     \<and> length (topConsumerFields (fieldDistribution report)) \<le> topCount
     \<and> criticalFields (riskAssessment report) =
         map assessField (topConsumerFields (fieldDistribution report))
     \<and> systemFragility (riskAssessment report) \<noteq> ''CRITICAL''
     \<and> recommendedActions (riskAssessment report) = baseActions
     \<and> ''URGENT: Establish emergency rollback procedures''
          \<notin> set (recommendedActions (riskAssessment report))
     \<and> ''Consider system architecture redesign''
          \<notin> set (recommendedActions (riskAssessment report))"
proof -
  obtain s c fd db' where r: "impact_summary_main ic idist topCount db =
       (Inr \<lparr>systemStats = s, connectivityStats = c, fieldDistribution = fd,
             riskAssessment = generateRiskAssessment s fd\<rparr>, db')"
    and len: "length (topConsumerFields fd) \<le> topCount"
    using impact_summary_main_report by blast
  from len assms have "length (topConsumerFields fd) \<le> 20" by simp
  from fragility_bounded [OF this, of s]
  have f: "systemFragility (generateRiskAssessment s fd) \<noteq> ''CRITICAL''"
    and a: "recommendedActions (generateRiskAssessment s fd) = baseActions" by simp_all
  have cf: "criticalFields (generateRiskAssessment s fd) = map assessField (topConsumerFields fd)"
    by (simp add: generateRiskAssessment_def Let_def)
  have d: "''URGENT: Establish emergency rollback procedures'' \<notin> set baseActions"
       "''Consider system architecture redesign'' \<notin> set baseActions"
    by (simp_all add: baseActions_def)
  show ?thesis using r len f a cf d by simp
qed

theorem fragility_never_critical_under_cap_witness:
  "(10::nat) \<le> 20 \<and> (\<exists>report db'. impact_summary_main True True 10 (healthy three_units) = (Inr report, db')
     \<and> length (topConsumerFields (fieldDistribution report)) \<le> 10
     \<and> criticalFields (riskAssessment report) =
         map assessField (topConsumerFields (fieldDistribution report))
     \<and> systemFragility (riskAssessment report) \<noteq> ''CRITICAL''
     \<and> recommendedActions (riskAssessment report) = baseActions
     \<and> ''URGENT: Establish emergency rollback procedures''
          \<notin> set (recommendedActions (riskAssessment report))
     \<and> ''Consider system architecture redesign''
          \<notin> set (recommendedActions (riskAssessment report)))"
proof -
  have h: "(10::nat) \<le> 20" by simp
  from fragility_never_critical_under_cap [OF h, of True True "healthy three_units"] h
  show ?thesis by blast
qed

section \<open>Distribution bands (critical-fields.ts, impact-summary.ts)\<close>













section \<open>The summary of an empty ranking (critical-fields.ts)\<close>

text \<open>
  Claim C10. When no field meets the threshold the ranked list is empty, and
  \<open>generateSummary\<close> divides the sum 0 by the length 0: the average is \<open>NaN\<close>, and the
  maximum over no argument is \<open>-Infinity\<close>. The empty graph reaches this through \<open>main\<close>
  with the summary format. The percentages of \<open>getFieldDistribution\<close> are guarded
  (\<open>stats.total || 1\<close>) and are all zero there.
\<close>

theorem empty_ranking_divides_by_zero:
  "averageConsumers (generateSummary [] stats) = NaN
   \<and> maxConsumers (generateSummary [] stats) = NegInfinity
   \<and> fst (analyzeCriticalFields minConsumers limit sortBy (healthy empty_graph)) = Inr []
   \<and> fst (critical_fields_main minConsumers limit sortBy ''summary'' (healthy empty_graph)) =
       Inr ([], Some \<lparr>summary_totalFields = 0, highImpactFields = [],
                      averageConsumers = NaN, maxConsumers = NegInfinity,
                      distributionStats = \<lparr>lowImpact = 0, mediumImpact = 0, highImpact = 0,
                                            criticalImpact = 0\<rparr>\<rparr>)
   \<and> (case fst (getFieldDistribution topCount (healthy empty_graph)) of
         Inl e \<Rightarrow> False
       | Inr fd \<Rightarrow> map percentage (byConsumerCount fd) = replicate 6 (Finite 0))"
  by (simp add: generateSummary_def js_div_def critical_fields_main_def analyzeCriticalFields_def
      getFieldDistributionStats_def cypher_criticalFields_def cypher_fieldDistributionStats_def
      order_by_desc_def consumerCounts_def eligible_def sum_case_def
      getFieldDistribution_def try_catch_def getFieldDistribution_try_def await_def
      queryNeo4j_rows resolve_def cypher_distributionStats_def Let_def band_def
      healthy_def empty_graph_def numeral_eq_Suc)

section \<open>Termination and size of the multi-hop analysis (impact-analysis.ts)\<close>

lemma cypher_multiHopImpact_capped:
  "length (cypher_multiHopImpact identifier isOutputField depth g) \<le> 100"
  by (simp add: cypher_multiHopImpact_def)

lemma multiHop_loop_bounds:
  "multiHop_loop ident isField m d acc db = (r, db') \<Longrightarrow>
     graph db' = graph db \<and> outage db' = outage db \<and>
     (case r of
        Inr out \<Rightarrow>
          issued db' = issued db + (Suc m - d)
          \<and> length out \<le> length acc + 100 * (Suc m - d)
      | Inl e \<Rightarrow>
          issued db < issued db' \<and> issued db' \<le> issued db + (Suc m - d))"
proof (induction ident isField m d acc db arbitrary: r db'
    rule: multiHop_loop.induct)
  case (1 ident isField m d acc db)
  show ?case
  proof (cases "d \<le> m")
    case False
    with "1.prems" show ?thesis by auto
  next
    case True
    show ?thesis
    proof (cases "outage db (issued db)")
      case (Some cause)
      with True "1.prems" show ?thesis
        by (auto simp: queryNeo4j_rows)
    next
      case None
      let ?rows = "cypher_multiHopImpact ident isField d (graph db)"
      let ?db1 = "db\<lparr>issued := Suc (issued db)\<rparr>"
      have q: "queryNeo4j (\<lambda>g. Inr (cypher_multiHopImpact ident isField d g)) db
                 = (Inr ?rows, ?db1)"
        using None by (simp add: queryNeo4j_rows)
      with True "1.prems"
      have rec: "multiHop_loop ident isField m (d + 1) (acc @ ?rows) ?db1
                   = (r, db')"
        by simp
      from "1.IH" [OF True q [symmetric] refl rec]
      have ih: "graph db' = graph ?db1 \<and> outage db' = outage ?db1 \<and>
         (case r of
            Inr out \<Rightarrow>
              issued db' = issued ?db1 + (Suc m - (d + 1))
              \<and> length out \<le> length (acc @ ?rows) + 100 * (Suc m - (d + 1))
          | Inl e \<Rightarrow>
              issued ?db1 < issued db' \<and> issued db' \<le> issued ?db1 + (Suc m - (d + 1)))" .
      have cap: "length ?rows \<le> 100" by (rule cypher_multiHopImpact_capped)
      from ih cap True show ?thesis
        by (cases r) auto
    qed
  qed
qed

lemma multiHop_loop_succeeds:
  "\<forall>k < Suc m - d. outage db (issued db + k) = None \<Longrightarrow>
   multiHop_loop ident isField m d acc db =
     (Inr (acc @ concat (map (\<lambda>i. cypher_multiHopImpact ident isField i (graph db)) [d..<Suc m])),
      db\<lparr>issued := issued db + (Suc m - d)\<rparr>)"
proof (induction ident isField m d acc db rule: multiHop_loop.induct)
  case (1 ident isField m d acc db)
  show ?case
  proof (cases "d \<le> m")
    case False
    then show ?thesis by simp
  next
    case True
    let ?rows = "cypher_multiHopImpact ident isField d (graph db)"
    let ?db1 = "db\<lparr>issued := Suc (issued db)\<rparr>"
    from True "1.prems" have none: "outage db (issued db) = None"
      by (metis add.right_neutral Suc_diff_le zero_less_Suc)
    have q: "queryNeo4j (\<lambda>g. Inr (cypher_multiHopImpact ident isField d g)) db = (Inr ?rows, ?db1)"
      using none by (simp add: queryNeo4j_rows)
    have later: "\<forall>k < Suc m - (d + 1). outage ?db1 (issued ?db1 + k) = None"
    proof (intro allI impI)
      fix k assume "k < Suc m - (d + 1)"
      then have "Suc k < Suc m - d" by arith
      with "1.prems" have "outage db (issued db + Suc k) = None" by blast
      then show "outage ?db1 (issued ?db1 + k) = None" by simp
    qed
    from "1.IH" [OF True q [symmetric] refl later]
    have ih: "multiHop_loop ident isField m (d + 1) (acc @ ?rows) ?db1 =
       (Inr ((acc @ ?rows) @ concat (map (\<lambda>i. cypher_multiHopImpact ident isField i (graph ?db1))
                                      [d + 1..<Suc m])),
        ?db1\<lparr>issued := issued ?db1 + (Suc m - (d + 1))\<rparr>)" .
    have range: "[d..<Suc m] = d # [d + 1..<Suc m]"
      using True by (simp add: upt_conv_Cons)
    have count: "Suc (issued db) + (Suc m - (d + 1)) = issued db + (Suc m - d)"
      using True by arith
    have step: "multiHop_loop ident isField m d acc db =
            multiHop_loop ident isField m (d + 1) (acc @ ?rows) ?db1"
      by (subst multiHop_loop.simps) (simp add: True q del: multiHop_loop.simps)
    show ?thesis
      unfolding step ih range using count by (simp del: multiHop_loop.simps)
  qed
qed

text \<open>
  Claim C9. The multi-hop impact analysis terminates for every maximum depth and every
  graph, cyclic or not: \<open>multiHop_loop\<close> is a total function, and a run issues at most
  \<open>maxDepth\<close> queries. When no query fails, the loop runs exactly \<open>maxDepth\<close> iterations,
  each issuing one query for its depth level whose result has at most 100 rows; the
  result is the concatenation of these rows in the order of the levels, so it has at most
  \<open>100 * maxDepth\<close> rows.
\<close>

theorem multi_hop_terminates_within_bounds:
  "issued (snd (analyzeMultiHopImpact ident isField maxDepth db)) \<le> issued db + maxDepth
   \<and> ((\<forall>k < maxDepth. outage db (issued db + k) = None) \<longrightarrow>
        (\<exists>results db'.
           analyzeMultiHopImpact ident isField maxDepth db = (Inr results, db')
           \<and> issued db' = issued db + maxDepth
           \<and> results = concat (map (\<lambda>depth. cypher_multiHopImpact ident isField depth (graph db))
                                  [1..<Suc maxDepth])
           \<and> (\<forall>depth. length (cypher_multiHopImpact ident isField depth (graph db)) \<le> 100)
           \<and> length results \<le> 100 * maxDepth))"
proof (intro conjI impI)
  obtain r db' where run: "multiHop_loop ident isField maxDepth 1 [] db = (r, db')"
    by (cases "multiHop_loop ident isField maxDepth 1 [] db")
  from multiHop_loop_bounds [OF run]
  have "issued db' \<le> issued db + maxDepth"
    by (cases r) auto
  with run show "issued (snd (analyzeMultiHopImpact ident isField maxDepth db)) \<le> issued db + maxDepth"
    by (simp add: analyzeMultiHopImpact_def)
next
  assume up: "\<forall>k < maxDepth. outage db (issued db + k) = None"
  let ?results = "concat (map (\<lambda>depth. cypher_multiHopImpact ident isField depth (graph db))
                                  [1..<Suc maxDepth])"
  let ?db' = "db\<lparr>issued := issued db + maxDepth\<rparr>"
  from up have "\<forall>k < Suc maxDepth - 1. outage db (issued db + k) = None" by simp
  from multiHop_loop_succeeds [OF this, of ident isField "[]"]
  have run: "analyzeMultiHopImpact ident isField maxDepth db = (Inr ?results, ?db')"
    by (simp add: analyzeMultiHopImpact_def)
  from multiHop_loop_bounds [of ident isField maxDepth 1 "[]" db "Inr ?results" ?db']
  have len: "length ?results \<le> 100 * maxDepth"
    using run by (simp add: analyzeMultiHopImpact_def)
  have cap: "\<forall>depth. length (cypher_multiHopImpact ident isField depth (graph db)) \<le> 100"
    by (simp add: cypher_multiHopImpact_capped)
  have count: "issued ?db' = issued db + maxDepth" by simp
  show "\<exists>results db'.
           analyzeMultiHopImpact ident isField maxDepth db = (Inr results, db')
           \<and> issued db' = issued db + maxDepth
           \<and> results = concat (map (\<lambda>depth. cypher_multiHopImpact ident isField depth (graph db))
                                  [1..<Suc maxDepth])
           \<and> (\<forall>depth. length (cypher_multiHopImpact ident isField depth (graph db)) \<le> 100)
           \<and> length results \<le> 100 * maxDepth"
    by (rule exI [of _ ?results], rule exI [of _ ?db']) (intro conjI run count refl cap len)
qed

text \<open>On the cyclic chain the units A and B reappear at growing depths.\<close>

theorem multi_hop_terminates_within_bounds_witness:
  "outage (healthy cyclic_units) = (\<lambda>k. None)
   \<and> (\<exists>results db'.
         analyzeMultiHopImpact ''A'' False 3 (healthy cyclic_units) = (Inr results, db')
         \<and> issued db' = 3
         \<and> map affectedBusinessFunction results = [''A'', ''B'', ''A'']
         \<and> map impactDepth results = [2, 3, 4]
         \<and> length results \<le> 300)"
proof -
  have up: "\<forall>k < 3. outage (healthy cyclic_units) (issued (healthy cyclic_units) + k) = None"
    by (simp add: healthy_def)
  have rows: "concat (map (\<lambda>depth. cypher_multiHopImpact ''A'' False depth (graph (healthy cyclic_units)))
                 [1..<Suc 3]) =
     [\<lparr>sourceBusinessFunction = ''A'', sourceOutputField = ''F1'',
         affectedBusinessFunction = ''A'', affectedOutputField = ''F1'',
         impactDepth = 2, pathFields = [''F1'', ''F2'']\<rparr>,
      \<lparr>sourceBusinessFunction = ''A'', sourceOutputField = ''F1'',
         affectedBusinessFunction = ''B'', affectedOutputField = ''F2'',
         impactDepth = 3, pathFields = [''F1'', ''F2'', ''F1'']\<rparr>,
      \<lparr>sourceBusinessFunction = ''A'', sourceOutputField = ''F1'',
         affectedBusinessFunction = ''A'', affectedOutputField = ''F1'',
         impactDepth = 4, pathFields = [''F1'', ''F2'', ''F1'', ''F2'']\<rparr>]"
    by (simp add: cypher_multiHopImpact_def match_source_def consumers_of_def
        healthy_def cyclic_units_def unit_def fld_def produces_def consumes_def
        upt_rec numeral_eq_Suc)
  from multi_hop_terminates_within_bounds [of "''A''" False 3 "healthy cyclic_units"] up
  obtain results db' where
    run: "analyzeMultiHopImpact ''A'' False 3 (healthy cyclic_units) = (Inr results, db')"
    and count: "issued db' = issued (healthy cyclic_units) + 3"
    and res: "results = concat (map (\<lambda>depth. cypher_multiHopImpact ''A'' False depth (graph (healthy cyclic_units)))
                 [1..<Suc 3])"
    and len: "length results \<le> 100 * 3"
    by blast
  from res have res': "map affectedBusinessFunction results = [''A'', ''B'', ''A'']"
      "map impactDepth results = [2, 3, 4]"
    by (simp_all only: rows) simp_all
  from count have count': "issued db' = 3" by (simp add: healthy_def)
  from len have len': "length results \<le> 300" by simp
  have o: "outage (healthy cyclic_units) = (\<lambda>k. None)" by (simp add: healthy_def)
  have "\<exists>results db'.
         analyzeMultiHopImpact ''A'' False 3 (healthy cyclic_units) = (Inr results, db')
         \<and> issued db' = 3
         \<and> map affectedBusinessFunction results = [''A'', ''B'', ''A'']
         \<and> map impactDepth results = [2, 3, 4]
         \<and> length results \<le> 300"
    by (rule exI [of _ results], rule exI [of _ db']) (intro conjI run count' res' len')
  with o show ?thesis by (rule conjI)
qed

section \<open>Paths returned by the Path Finder (dependency-path.ts)\<close>

lemma path_rels_kind: "(b, f) \<in> set (path_rels g) \<Longrightarrow> \<not> is_BF f"
  by (auto simp: path_rels_def)

lemma other_end_kind:
  "\<not> is_BF f \<Longrightarrow> m \<in> set (other_end (b, f) n) \<Longrightarrow> is_BF m \<noteq> is_BF n"
  by (cases n) (auto split: if_splits)

lemma expand_step:
  assumes "(i, m) \<in> set (expand g used n)"
  obtains b f where "(b, f) \<in> set (path_rels g)" "m \<in> set (other_end (b, f) n)"
proof -
  from assms obtain r where "(i, r) \<in> set (enumerate 0 (path_rels g))" "m \<in> set (other_end r n)"
    by (auto simp: expand_def)
  then have "r \<in> set (path_rels g)" "m \<in> set (other_end r n)"
    by (auto simp: in_set_enumerate_eq)
  then show thesis
    using that [of "fst r" "snd r"] by simp
qed

lemma expand_kind:
  assumes "(i, m) \<in> set (expand g used n)"
  shows "is_BF m \<noteq> is_BF n"
proof -
  from assms obtain b f where "(b, f) \<in> set (path_rels g)" "m \<in> set (other_end (b, f) n)"
    by (rule expand_step)
  then show ?thesis
    using path_rels_kind other_end_kind by blast
qed

lemma expand_no_group:
  assumes "group_rels g = []" "(i, m) \<in> set (expand g used n)"
  shows "\<not> is_GF m"
proof -
  from assms(2) obtain b f where e: "(b, f) \<in> set (path_rels g)" "m \<in> set (other_end (b, f) n)"
    by (rule expand_step)
  from e(1) assms(1) have "\<not> is_GF f"
    by (auto simp: path_rels_def)
  with e(2) show ?thesis
    by (cases n) (auto split: if_splits)
qed

lemma trails_alternating:
  "p \<in> set (trails g k used n) \<Longrightarrow> p \<noteq> [] \<and> alternating (n # p)"
proof (induction k arbitrary: used n p)
  case 0
  then show ?case by simp
next
  case (Suc k)
  from Suc.prems obtain i m where
    step: "(i, m) \<in> set (expand g used n)"
    and p: "p = [m] \<or> (\<exists>q \<in> set (trails g k (i # used) m). p = m # q)"
    by auto
  from step have kind: "is_BF n \<noteq> is_BF m"
    using expand_kind by blast
  from p show ?case
  proof
    assume "p = [m]"
    with kind show ?thesis by simp
  next
    assume "\<exists>q \<in> set (trails g k (i # used) m). p = m # q"
    then obtain q where q: "q \<in> set (trails g k (i # used) m)" and pq: "p = m # q"
      by blast
    from Suc.IH [OF q] have "alternating (m # q)" by simp
    with kind pq show ?thesis by simp
  qed
qed

lemma trails_no_group:
  "group_rels g = [] \<Longrightarrow> p \<in> set (trails g k used n) \<Longrightarrow> \<forall>m \<in> set p. \<not> is_GF m"
proof (induction k arbitrary: used n p)
  case 0
  then show ?case by simp
next
  case (Suc k)
  from Suc.prems(2) obtain i m where
    step: "(i, m) \<in> set (expand g used n)"
    and p: "p = [m] \<or> (\<exists>q \<in> set (trails g k (i # used) m). p = m # q)"
    by auto
  from expand_no_group [OF Suc.prems(1) step] have m: "\<not> is_GF m" .
  from p show ?case
  proof
    assume "p = [m]"
    with m show ?thesis by simp
  next
    assume "\<exists>q \<in> set (trails g k (i # used) m). p = m # q"
    then obtain q where q: "q \<in> set (trails g k (i # used) m)" and pq: "p = m # q"
      by blast
    from Suc.IH [OF Suc.prems(1) q] m pq show ?thesis by simp
  qed
qed

lemma alternating_shape:
  "alternating ns \<Longrightarrow>
     (if ns = [] then True
      else if is_BF (hd ns) then
        length (bf_names ns) = (length ns + 1) div 2 \<and> length (ef_names ns) \<le> length ns div 2
        \<and> is_BF (last ns) = odd (length ns)
        \<and> ((\<forall>n \<in> set ns. \<not> is_GF n) \<longrightarrow>
             length (ef_names ns) = length ns div 2
             \<and> map node_name ns = splice (bf_names ns) (ef_names ns))
      else
        length (bf_names ns) = length ns div 2 \<and> length (ef_names ns) \<le> (length ns + 1) div 2
        \<and> is_BF (last ns) = even (length ns)
        \<and> ((\<forall>n \<in> set ns. \<not> is_GF n) \<longrightarrow>
             length (ef_names ns) = (length ns + 1) div 2
             \<and> map node_name ns = splice (ef_names ns) (bf_names ns)))"
proof (induction ns rule: alternating.induct)
  case 1
  then show ?case by simp
next
  case (2 n)
  then show ?case by (cases n) (simp_all add: bf_names_def ef_names_def)
next
  case (3 n m ns)
  then show ?case
    by (cases n; cases m) (auto simp: bf_names_def ef_names_def)
qed

lemma path_shape_of_nodes:
  assumes "alternating ns" "ns \<noteq> []" "is_BF (hd ns)" "is_BF (last ns)"
  shows "length (bf_names ns) = (length ns - 1) div 2 + 1
       \<and> length (ef_names ns) \<le> (length ns - 1) div 2
       \<and> length ns = 2 * ((length ns - 1) div 2) + 1
       \<and> ((\<forall>n \<in> set ns. \<not> is_GF n) \<longrightarrow>
            length (ef_names ns) = (length ns - 1) div 2
            \<and> map node_name ns = splice (bf_names ns) (ef_names ns))"
proof -
  from alternating_shape [OF assms(1)] assms(2,3,4)
  have 1: "length (bf_names ns) = (length ns + 1) div 2"
    and 2: "length (ef_names ns) \<le> length ns div 2"
    and 3: "odd (length ns)"
    and 4: "(\<forall>n \<in> set ns. \<not> is_GF n) \<longrightarrow>
             length (ef_names ns) = length ns div 2
             \<and> map node_name ns = splice (bf_names ns) (ef_names ns)"
    by simp_all
  from 3 have "(length ns + 1) div 2 = (length ns - 1) div 2 + 1"
    "length ns div 2 = (length ns - 1) div 2"
    "length ns = 2 * ((length ns - 1) div 2) + 1"
    by presburger+
  with 1 2 4 show ?thesis by simp
qed

lemma var_length_paths_shape:
  assumes "ns \<in> set (var_length_paths g s t k)"
  shows "alternating ns \<and> ns \<noteq> [] \<and> hd ns = BF s \<and> last ns = BF t"
proof -
  from assms obtain p where p: "p \<in> set (trails g k [] (BF s))" "last p = BF t" "ns = BF s # p"
    by (auto simp: var_length_paths_def)
  from trails_alternating [OF p(1)] p(2,3) show ?thesis by simp
qed

lemma var_length_paths_no_group:
  assumes "group_rels g = []" "ns \<in> set (var_length_paths g s t k)"
  shows "\<forall>n \<in> set ns. \<not> is_GF n"
proof -
  from assms(2) obtain p where p: "p \<in> set (trails g k [] (BF s))" "ns = BF s # p"
    by (auto simp: var_length_paths_def)
  from trails_no_group [OF assms(1) p(1)] p(2) show ?thesis by simp
qed

lemma order_by_asc_set: "set (order_by_asc key rows) = set rows"
  by (simp add: order_by_asc_def)

lemma order_by_desc_set: "set (order_by_desc key rows) = set rows"
  by (simp add: order_by_desc_def)

lemma cypher_all_rows:
  assumes "row \<in> set (cypher_all source target maxDepth limit g)"
  shows "\<exists>s t ns. s \<in> set (bf_nodes g) \<and> bf_name s = source
           \<and> t \<in> set (bf_nodes g) \<and> bf_name t = target
           \<and> ns \<in> set (var_length_paths g s t (maxDepth * 2)) \<and> row = pathRow ns"
proof -
  from assms have "row \<in> set (order_by_asc row_pathLength
      (map pathRow (matched_paths source target maxDepth g)))"
    unfolding cypher_all_def by (rule in_set_takeD)
  then have "row \<in> pathRow ` set (matched_paths source target maxDepth g)"
    by (simp add: order_by_asc_set)
  then show ?thesis
    by (auto simp: matched_paths_def)
qed

lemma cypher_longest_rows:
  assumes "row \<in> set (cypher_longest source target maxDepth limit g)"
  shows "\<exists>s t ns. s \<in> set (bf_nodes g) \<and> bf_name s = source
           \<and> t \<in> set (bf_nodes g) \<and> bf_name t = target
           \<and> ns \<in> set (var_length_paths g s t (maxDepth * 2)) \<and> row = pathRow ns"
proof -
  from assms have "row \<in> set (order_by_desc row_pathLength
      (map pathRow [p. s \<leftarrow> bf_nodes g, bf_name s = source, t \<leftarrow> bf_nodes g, bf_name t = target,
                        p \<leftarrow> var_length_paths g s t (maxDepth * 2)]))"
    unfolding cypher_longest_def by (rule in_set_takeD)
  then show ?thesis
    by (auto simp: order_by_desc_set)
qed

lemma shortestPath_member:
  assumes "ns \<in> set (shortestPath g s t k)"
  shows "ns \<in> set (var_length_paths g s t k)
       \<and> (\<forall>ms \<in> set (var_length_paths g s t k). length ns \<le> length ms)"
proof (cases "var_length_paths g s t k")
  case Nil
  with assms show ?thesis by (simp add: shortestPath_def)
next
  case (Cons p ps)
  with assms have ns: "ns = arg_min_list length (var_length_paths g s t k)"
    by (simp add: shortestPath_def)
  from Cons have ne: "var_length_paths g s t k \<noteq> []" by simp
  from arg_min_list_in [OF ne] ns have "ns \<in> set (var_length_paths g s t k)" by simp
  moreover from f_arg_min_list_f [OF ne, of length] ns
  have "length ns = Min (length ` set (var_length_paths g s t k))" by simp
  then have "\<forall>ms \<in> set (var_length_paths g s t k). length ns \<le> length ms"
    by simp
  ultimately show ?thesis by blast
qed

lemma cypher_shortest_rows:
  assumes "cypher_shortest source target maxDepth limit g = Inr rows" "row \<in> set rows"
  shows "\<exists>s t ns. s \<in> set (bf_nodes g) \<and> bf_name s = source
           \<and> t \<in> set (bf_nodes g) \<and> bf_name t = target
           \<and> ns \<in> set (shortestPath g s t (maxDepth * 2)) \<and> row = pathRow ns"
proof -
  from assms(1) have "rows = take limit
        [pathRow p. s \<leftarrow> bf_nodes g, bf_name s = source, t \<leftarrow> bf_nodes g, bf_name t = target,
                    p \<leftarrow> shortestPath g s t (maxDepth * 2)]"
    by (simp add: cypher_shortest_def split: if_splits)
  with assms(2) have "row \<in> set
        [pathRow p. s \<leftarrow> bf_nodes g, bf_name s = source, t \<leftarrow> bf_nodes g, bf_name t = target,
                    p \<leftarrow> shortestPath g s t (maxDepth * 2)]"
    by (auto dest: in_set_takeD)
  then show ?thesis by auto
qed

lemma findDependencyPaths_rows:
  assumes "findDependencyPaths source target maxDepth pathType limit db = (Inr paths, db')"
    and "p \<in> set paths"
  shows "\<exists>s t ns. s \<in> set (bf_nodes (graph db)) \<and> bf_name s = source
           \<and> t \<in> set (bf_nodes (graph db)) \<and> bf_name t = target
           \<and> ns \<in> set (var_length_paths (graph db) s t (maxDepth * 2))
           \<and> p = toDependencyPath (pathRow ns)"
proof -
  consider (shortest) "pathType = ''shortest''" | (all) "pathType = ''all''"
    | (longest) "pathType = ''longest''"
    | (other) "pathType \<noteq> ''shortest''" "pathType \<noteq> ''all''" "pathType \<noteq> ''longest''"
    by blast
  then show ?thesis
  proof cases
    case shortest
    with assms(1) obtain rows where
      rows: "cypher_shortest source target maxDepth limit (graph db) = Inr rows"
      and paths: "paths = map toDependencyPath rows"
      by (auto simp: findDependencyPaths_def await_def queryNeo4j_def resolve_def Let_def
          split: option.splits sum.splits)
    from assms(2) paths obtain row where row: "row \<in> set rows" "p = toDependencyPath row"
      by auto
    from cypher_shortest_rows [OF rows row(1)] row(2) shortestPath_member
    show ?thesis by blast
  next
    case all
    with assms(1) have paths: "paths = map toDependencyPath
        (cypher_all source target maxDepth limit (graph db))"
      by (auto simp: findDependencyPaths_def await_def queryNeo4j_rows resolve_def
          split: option.splits)
    with assms(2) obtain row where row:
      "row \<in> set (cypher_all source target maxDepth limit (graph db))" "p = toDependencyPath row"
      by auto
    from cypher_all_rows [OF row(1)] row(2) show ?thesis by blast
  next
    case longest
    with assms(1) have paths: "paths = map toDependencyPath
        (cypher_longest source target maxDepth limit (graph db))"
      by (auto simp: findDependencyPaths_def await_def queryNeo4j_rows resolve_def
          split: option.splits)
    with assms(2) obtain row where row:
      "row \<in> set (cypher_longest source target maxDepth limit (graph db))" "p = toDependencyPath row"
      by auto
    from cypher_longest_rows [OF row(1)] row(2) show ?thesis by blast
  next
    case other
    with assms(1) show ?thesis
      by (simp add: findDependencyPaths_def reject_def)
  qed
qed

lemma diamond_shortest:
  "fst (findDependencyPaths ''A'' ''C'' 3 ''shortest'' 100 (healthy diamond)) = Inr [path_A_C]"
  by code_simp

lemma diamond_all:
  "fst (findDependencyPaths ''A'' ''C'' 3 ''all'' 100 (healthy diamond)) =
     Inr [path_A_C, path_A_B_C]"
  by code_simp

lemma group_field_all:
  "fst (findDependencyPaths ''A'' ''B'' 3 ''all'' 100 (healthy through_group_field)) =
     Inr [path_A_B]"
  by code_simp

lemma group_field_shortest:
  "fst (findDependencyPaths ''A'' ''B'' 3 ''shortest'' 100 (healthy through_group_field)) =
     Inr [path_A_B]"
  by code_simp

lemma group_field_longest:
  "fst (findDependencyPaths ''A'' ''B'' 3 ''longest'' 100 (healthy through_group_field)) =
     Inr [path_A_B]"
  by code_simp

text \<open>
  Claim C7 says that every returned path has one more unit name than its length and as
  many field names as its length. The path patterns put no label on the nodes inside a
  path, and the field names are taken from the nodes labelled ElementalField only. When
  unit A writes a group field that unit B reads, every strategy returns the path from A to
  B with length 1, the two unit names and no field name.
\<close>

theorem path_through_group_field_has_no_field_name:
  "fst (findDependencyPaths ''A'' ''B'' 3 ''shortest'' 100 (healthy through_group_field)) =
     Inr [path_A_B]
   \<and> fst (findDependencyPaths ''A'' ''B'' 3 ''all'' 100 (healthy through_group_field)) =
     Inr [path_A_B]
   \<and> fst (findDependencyPaths ''A'' ''B'' 3 ''longest'' 100 (healthy through_group_field)) =
     Inr [path_A_B]
   \<and> pathLength path_A_B = 1
   \<and> length (businessFunctions path_A_B) = 2
   \<and> length (dp_fields path_A_B) = 0
   \<and> length (dp_fields path_A_B) \<noteq> pathLength path_A_B"
  using group_field_shortest group_field_all group_field_longest
  by (simp add: path_A_B_def)

text \<open>
  Claim C7, amended. Every path returned by \<open>findDependencyPaths\<close>, under any of the three
  strategies, has one more unit name than its length, where the length counts unit hops
  (two relationships each), and at most as many field names as its length. Its names come
  from a matched node sequence of \<open>2 * length + 1\<close> nodes in which units and fields
  alternate. When no field node of that sequence is a GroupField, the number of field names
  equals the length and the fields interleave the units; this is so for every returned
  path when no HAS_INPUT_FIELD or HAS_OUTPUT_FIELD relationship of the graph ends in a
  GroupField.
\<close>

theorem returned_paths_interleave:
  assumes "findDependencyPaths source target maxDepth pathType limit db = (Inr paths, db')"
    and "p \<in> set paths"
  shows "length (businessFunctions p) = pathLength p + 1
       \<and> length (dp_fields p) \<le> pathLength p
       \<and> (\<exists>s t ns. ns \<in> set (var_length_paths (graph db) s t (maxDepth * 2))
              \<and> alternating ns \<and> length ns = 2 * pathLength p + 1
              \<and> businessFunctions p = bf_names ns \<and> dp_fields p = ef_names ns
              \<and> ((\<forall>n \<in> set ns. \<not> is_GF n) \<longrightarrow>
                   length (dp_fields p) = pathLength p
                   \<and> map node_name ns = splice (businessFunctions p) (dp_fields p)))
       \<and> (group_rels (graph db) = [] \<longrightarrow>
            length (dp_fields p) = pathLength p
            \<and> (\<exists>ns. alternating ns \<and> length ns = 2 * pathLength p + 1
                   \<and> businessFunctions p = bf_names ns \<and> dp_fields p = ef_names ns
                   \<and> map node_name ns = splice (businessFunctions p) (dp_fields p)))"
proof -
  from findDependencyPaths_rows [OF assms] obtain s t ns where
    ns: "ns \<in> set (var_length_paths (graph db) s t (maxDepth * 2))"
    and p: "p = toDependencyPath (pathRow ns)"
    by blast
  from var_length_paths_shape [OF ns]
  have alt: "alternating ns" and ne: "ns \<noteq> []" and ends: "is_BF (hd ns)" "is_BF (last ns)"
    by simp_all
  have names: "businessFunctions p = bf_names ns" "dp_fields p = ef_names ns"
    and len: "pathLength p = (length ns - 1) div 2"
    by (simp_all add: p toDependencyPath_def pathRow_def Let_def)
  from path_shape_of_nodes [OF alt ne ends]
  have units: "length (businessFunctions p) = pathLength p + 1"
    and upper: "length (dp_fields p) \<le> pathLength p"
    and nodes: "length ns = 2 * pathLength p + 1"
    and elemental: "(\<forall>n \<in> set ns. \<not> is_GF n) \<longrightarrow>
            length (dp_fields p) = pathLength p
            \<and> map node_name ns = splice (businessFunctions p) (dp_fields p)"
    unfolding names len by simp_all
  have third: "\<exists>s t ns. ns \<in> set (var_length_paths (graph db) s t (maxDepth * 2))
              \<and> alternating ns \<and> length ns = 2 * pathLength p + 1
              \<and> businessFunctions p = bf_names ns \<and> dp_fields p = ef_names ns
              \<and> ((\<forall>n \<in> set ns. \<not> is_GF n) \<longrightarrow>
                   length (dp_fields p) = pathLength p
                   \<and> map node_name ns = splice (businessFunctions p) (dp_fields p))"
    by (rule exI [of _ s], rule exI [of _ t], rule exI [of _ ns])
       (intro conjI ns alt nodes names elemental)
  have fourth: "group_rels (graph db) = [] \<longrightarrow>
            length (dp_fields p) = pathLength p
            \<and> (\<exists>ns. alternating ns \<and> length ns = 2 * pathLength p + 1
                   \<and> businessFunctions p = bf_names ns \<and> dp_fields p = ef_names ns
                   \<and> map node_name ns = splice (businessFunctions p) (dp_fields p))"
  proof
    assume "group_rels (graph db) = []"
    from var_length_paths_no_group [OF this ns] elemental
    have eq: "length (dp_fields p) = pathLength p"
      and spl: "map node_name ns = splice (businessFunctions p) (dp_fields p)"
      by simp_all
    have "\<exists>ns. alternating ns \<and> length ns = 2 * pathLength p + 1
                   \<and> businessFunctions p = bf_names ns \<and> dp_fields p = ef_names ns
                   \<and> map node_name ns = splice (businessFunctions p) (dp_fields p)"
      by (rule exI [of _ ns]) (intro conjI alt nodes names spl)
    with eq show "length (dp_fields p) = pathLength p
            \<and> (\<exists>ns. alternating ns \<and> length ns = 2 * pathLength p + 1
                   \<and> businessFunctions p = bf_names ns \<and> dp_fields p = ef_names ns
                   \<and> map node_name ns = splice (businessFunctions p) (dp_fields p))"
      by (rule conjI)
  qed
  show ?thesis
    by (intro conjI units upper third fourth)
qed

theorem returned_paths_interleave_witness:
  "group_rels (graph (healthy diamond)) = []
   \<and> fst (findDependencyPaths ''A'' ''C'' 3 ''all'' 100 (healthy diamond)) = Inr [path_A_C, path_A_B_C]
   \<and> length (businessFunctions path_A_B_C) = pathLength path_A_B_C + 1
   \<and> length (dp_fields path_A_B_C) = pathLength path_A_B_C
   \<and> (\<exists>ns. alternating ns \<and> length ns = 2 * pathLength path_A_B_C + 1
          \<and> businessFunctions path_A_B_C = bf_names ns \<and> dp_fields path_A_B_C = ef_names ns
          \<and> map node_name ns = splice (businessFunctions path_A_B_C) (dp_fields path_A_B_C))"
proof -
  let ?run = "findDependencyPaths ''A'' ''C'' 3 ''all'' 100 (healthy diamond)"
  have run: "?run = (Inr [path_A_C, path_A_B_C], snd ?run)"
    using diamond_all by (simp add: prod_eq_iff)
  have member: "path_A_B_C \<in> set [path_A_C, path_A_B_C]" by simp
  have elemental: "group_rels (graph (healthy diamond)) = []"
    by (simp add: healthy_def diamond_def)
  from returned_paths_interleave [OF run member] elemental
  have units: "length (businessFunctions path_A_B_C) = pathLength path_A_B_C + 1"
    and flds: "length (dp_fields path_A_B_C) = pathLength path_A_B_C"
    and nodes: "\<exists>ns. alternating ns \<and> length ns = 2 * pathLength path_A_B_C + 1
          \<and> businessFunctions path_A_B_C = bf_names ns \<and> dp_fields path_A_B_C = ef_names ns
          \<and> map node_name ns = splice (businessFunctions path_A_B_C) (dp_fields path_A_B_C)"
    by blast+
  show ?thesis
    by (intro conjI elemental diamond_all units flds nodes)
qed

lemma unique_match:
  assumes "length (filter P xs) \<le> 1" "x \<in> set xs" "P x" "y \<in> set xs" "P y"
  shows "x = y"
proof -
  from assms(2,3) have x: "x \<in> set (filter P xs)" by simp
  from assms(4,5) have y: "y \<in> set (filter P xs)" by simp
  from assms(1) consider "filter P xs = []" | z where "filter P xs = [z]"
    by (cases "filter P xs") (auto simp: Suc_le_eq)
  then show ?thesis
    using x y by cases auto
qed

lemma named_A_shortest:
  "fst (findDependencyPaths ''A'' ''T'' 3 ''shortest'' 100 (healthy two_units_named_A)) =
     Inr [path_A_T, path_A_M_T]"
  by code_simp

lemma named_A_all:
  "fst (findDependencyPaths ''A'' ''T'' 3 ''all'' 100 (healthy two_units_named_A)) =
     Inr [path_A_T, path_A_M_T]"
  by code_simp

text \<open>
  Claim C8 says that for every source, target and maximum depth no path of strategy
  \<open>shortest\<close> is longer than any path of strategy \<open>all\<close>. Units are looked up by their
  display name, and \<open>shortestPath\<close> yields one path for each pair of matched end nodes.
  When two units are named A, the shortest path from the second one to T has length 2 and
  is returned next to the path of length 1 from the first one, which strategy \<open>all\<close>
  returns as well.
\<close>

theorem shortest_longer_with_shared_name:
  "fst (findDependencyPaths ''A'' ''T'' 3 ''shortest'' 100 (healthy two_units_named_A)) =
     Inr [path_A_T, path_A_M_T]
   \<and> fst (findDependencyPaths ''A'' ''T'' 3 ''all'' 100 (healthy two_units_named_A)) =
     Inr [path_A_T, path_A_M_T]
   \<and> pathLength path_A_T < pathLength path_A_M_T"
  using named_A_shortest named_A_all by (simp add: path_A_T_def path_A_M_T_def)

text \<open>
  Claim C8, amended. When the source name and the target name each match at most one unit
  of the graph, no path returned with strategy \<open>shortest\<close> is longer than any path returned
  with strategy \<open>all\<close> for the same source, target and maximum depth, whatever the two
  limits.
\<close>

theorem shortest_not_longer_than_all:
  assumes source: "length [b \<leftarrow> bf_nodes (graph db). bf_name b = source] \<le> 1"
    and target: "length [b \<leftarrow> bf_nodes (graph db). bf_name b = target] \<le> 1"
    and shortest: "findDependencyPaths source target maxDepth ''shortest'' limit db = (Inr ps, db1)"
    and all: "findDependencyPaths source target maxDepth ''all'' limit' db' = (Inr qs, db2)"
    and same: "graph db' = graph db"
    and p: "p \<in> set ps" and q: "q \<in> set qs"
  shows "pathLength p \<le> pathLength q"
proof -
  let ?g = "graph db"
  from shortest obtain rows where
    rows: "cypher_shortest source target maxDepth limit ?g = Inr rows"
    and ps: "ps = map toDependencyPath rows"
    by (auto simp: findDependencyPaths_def await_def queryNeo4j_def resolve_def Let_def
        split: option.splits sum.splits)
  from p ps obtain row where row: "row \<in> set rows" "p = toDependencyPath row"
    by auto
  from cypher_shortest_rows [OF rows row(1)] obtain s t ns where
    s: "s \<in> set (bf_nodes ?g)" "bf_name s = source"
    and t: "t \<in> set (bf_nodes ?g)" "bf_name t = target"
    and ns: "ns \<in> set (shortestPath ?g s t (maxDepth * 2))" and r: "row = pathRow ns"
    by blast
  from findDependencyPaths_rows [OF all q] same obtain s' t' ms where
    s': "s' \<in> set (bf_nodes ?g)" "bf_name s' = source"
    and t': "t' \<in> set (bf_nodes ?g)" "bf_name t' = target"
    and ms: "ms \<in> set (var_length_paths ?g s' t' (maxDepth * 2))"
    and q': "q = toDependencyPath (pathRow ms)"
    by auto
  have "s' = s"
    using source s' s by (rule unique_match)
  moreover have "t' = t"
    using target t' t by (rule unique_match)
  ultimately have "ms \<in> set (var_length_paths ?g s t (maxDepth * 2))"
    using ms by simp
  with shortestPath_member [OF ns] have "length ns \<le> length ms"
    by blast
  then have "(length ns - 1) div 2 \<le> (length ms - 1) div 2"
    by (intro div_le_mono diff_le_mono)
  then show ?thesis
    by (simp add: row(2) r q' toDependencyPath_def pathRow_def Let_def)
qed

theorem shortest_not_longer_than_all_witness:
  "length [b \<leftarrow> bf_nodes (graph (healthy diamond)). bf_name b = ''A''] \<le> 1
   \<and> length [b \<leftarrow> bf_nodes (graph (healthy diamond)). bf_name b = ''C''] \<le> 1
   \<and> fst (findDependencyPaths ''A'' ''C'' 3 ''shortest'' 100 (healthy diamond)) = Inr [path_A_C]
   \<and> fst (findDependencyPaths ''A'' ''C'' 3 ''all'' 100 (healthy diamond)) =
       Inr [path_A_C, path_A_B_C]
   \<and> pathLength path_A_C \<le> pathLength path_A_B_C"
proof -
  let ?db = "healthy diamond"
  let ?shortest = "findDependencyPaths ''A'' ''C'' 3 ''shortest'' 100 ?db"
  let ?all = "findDependencyPaths ''A'' ''C'' 3 ''all'' 100 ?db"
  have source: "length [b \<leftarrow> bf_nodes (graph ?db). bf_name b = ''A''] \<le> 1"
    by (simp add: healthy_def diamond_def unit_def)
  have target: "length [b \<leftarrow> bf_nodes (graph ?db). bf_name b = ''C''] \<le> 1"
    by (simp add: healthy_def diamond_def unit_def)
  have shortest: "?shortest = (Inr [path_A_C], snd ?shortest)"
    using diamond_shortest by (simp add: prod_eq_iff)
  have all: "?all = (Inr [path_A_C, path_A_B_C], snd ?all)"
    using diamond_all by (simp add: prod_eq_iff)
  have p: "path_A_C \<in> set [path_A_C]" and q: "path_A_B_C \<in> set [path_A_C, path_A_B_C]"
    by simp_all
  from shortest_not_longer_than_all [OF source target shortest all refl p q]
  have "pathLength path_A_C \<le> pathLength path_A_B_C" .
  with source target diamond_shortest diamond_all
  show ?thesis by simp
qed

end
